theory Spec2Isabelle
  imports Complex_Main
begin

section \<open>Geometry: pygame.Rect and pygame.Vector2\<close>

text \<open>
  \<^verbatim>\<open>engine.py\<close> keeps every position in a \<^verbatim>\<open>pygame.Rect\<close> (four integers: the top-left
  corner and the size; the Y axis points down, so \<open>top < bottom\<close>) and every speed in a
  \<^verbatim>\<open>pygame.Vector2\<close> (two floating-point numbers). The virtual attributes of a Rect
  (\<^verbatim>\<open>left\<close>, \<^verbatim>\<open>right\<close>, \<^verbatim>\<open>top\<close>, \<^verbatim>\<open>bottom\<close>, \<^verbatim>\<open>centerx\<close>) are derived from the four
  integers, and assigning to one of them moves the rectangle without resizing it.

  Speeds are modelled as rationals. Every finite float is a rational, and negation, copying
  and zero are exact on both; the rounding of the float sum \<^verbatim>\<open>rect.x + speed.x\<close> and of
  the float product \<^verbatim>\<open>speed * 1.02\<close> is idealised to the exact rational result.

  A Rect stores C ints. A float that reaches a Rect (assigned to an attribute, passed to
  \<^verbatim>\<open>move_ip\<close> or to the constructor) is rounded to the nearest integer, as pygame 2.6
  does (a tie goes away from zero; older versions of pygame truncate toward zero instead,
  and no theorem below depends on which of the two it is). A Python int that is passed to
  the constructor of a Rect or of a Surface is cast to a C int, which keeps its low 32 bits.
  The arithmetic on the attributes during a tick is modelled on unbounded integers: the
  positions of a game stay within a few board widths of the board.
\<close>

record Rect =
  rect_x :: int
  rect_y :: int
  rect_w :: int
  rect_h :: int

record Vector2 =
  vec_x :: rat
  vec_y :: rat

definition to_int :: "rat \<Rightarrow> int" where
  \<comment> \<open>float to the int of a Rect: the nearest integer, a tie away from zero\<close>
  "to_int q = (if 0 \<le> q then \<lfloor>q + 1 / 2\<rfloor> else \<lceil>q - 1 / 2\<rceil>)"

definition c_int :: "int \<Rightarrow> int" where
  \<comment> \<open>the cast of a C long to a C int: the low 32 bits, read as a signed number\<close>
  "c_int v = (v + 2147483648) mod 4294967296 - 2147483648"

definition c_half :: "int \<Rightarrow> int" where
  \<comment> \<open>the C expression \<^verbatim>\<open>w / 2\<close> on ints: truncation toward zero\<close>
  "c_half n = (if 0 \<le> n then n div 2 else - ((- n) div 2))"

definition rect_left :: "Rect \<Rightarrow> int" where
  "rect_left r = rect_x r"

definition rect_right :: "Rect \<Rightarrow> int" where
  "rect_right r = rect_x r + rect_w r"

definition rect_top :: "Rect \<Rightarrow> int" where
  "rect_top r = rect_y r"

definition rect_bottom :: "Rect \<Rightarrow> int" where
  "rect_bottom r = rect_y r + rect_h r"

definition rect_centerx :: "Rect \<Rightarrow> int" where
  "rect_centerx r = rect_x r + c_half (rect_w r)"

definition set_left :: "int \<Rightarrow> Rect \<Rightarrow> Rect" where
  "set_left v r = r\<lparr>rect_x := v\<rparr>"

definition set_right :: "int \<Rightarrow> Rect \<Rightarrow> Rect" where
  "set_right v r = r\<lparr>rect_x := v - rect_w r\<rparr>"

definition set_top :: "int \<Rightarrow> Rect \<Rightarrow> Rect" where
  "set_top v r = r\<lparr>rect_y := v\<rparr>"

definition set_bottom :: "int \<Rightarrow> Rect \<Rightarrow> Rect" where
  "set_bottom v r = r\<lparr>rect_y := v - rect_h r\<rparr>"

definition set_centerx :: "int \<Rightarrow> Rect \<Rightarrow> Rect" where
  "set_centerx v r = r\<lparr>rect_x := v - c_half (rect_w r)\<rparr>"

definition colliderect :: "Rect \<Rightarrow> Rect \<Rightarrow> bool" where
  \<comment> \<open>\<^verbatim>\<open>Rect.colliderect\<close>: strict overlap on both axes; a rectangle of zero width or
      height collides with nothing\<close>
  "colliderect a b =
     (if rect_w a = 0 \<or> rect_h a = 0 \<or> rect_w b = 0 \<or> rect_h b = 0 then False
      else min (rect_x a) (rect_x a + rect_w a) < max (rect_x b) (rect_x b + rect_w b)
         \<and> min (rect_y a) (rect_y a + rect_h a) < max (rect_y b) (rect_y b + rect_h b)
         \<and> max (rect_x a) (rect_x a + rect_w a) > min (rect_x b) (rect_x b + rect_w b)
         \<and> max (rect_y a) (rect_y a + rect_h a) > min (rect_y b) (rect_y b + rect_h b))"

section \<open>Entities\<close>

text \<open>
  \<^verbatim>\<open>Entity\<close> carries a rectangle (the image is cosmetic and left out);
  \<^verbatim>\<open>MovableEntity\<close> adds a speed (\<^verbatim>\<open>Ball\<close> and \<^verbatim>\<open>Platform\<close> add no field);
  \<^verbatim>\<open>Block\<close> adds the flag \<^verbatim>\<open>is_destroyed\<close>, which its constructor sets to False.
\<close>

record Entity =
  rect :: Rect

record MovableEntity = Entity +
  speed :: Vector2

record Block = Entity +
  is_destroyed :: bool

definition is_collided_with :: "'a Entity_scheme \<Rightarrow> 'b Entity_scheme \<Rightarrow> bool" where
  "is_collided_with e other = colliderect (rect e) (rect other)"

definition new_Block :: "Rect \<Rightarrow> Block" where
  "new_Block r = \<lparr>rect = r, is_destroyed = False\<rparr>"

definition set_is_destroyed :: "Block \<Rightarrow> Block" where
  "set_is_destroyed b = b\<lparr>is_destroyed := True\<rparr>"

definition platform_move :: "MovableEntity \<Rightarrow> MovableEntity" where
  \<comment> \<open>\<^verbatim>\<open>Platform.move\<close>: \<^verbatim>\<open>rect.move_ip(speed.x, 0)\<close>\<close>
  "platform_move p = p\<lparr>rect := (rect p)\<lparr>rect_x := rect_x (rect p) + to_int (vec_x (speed p))\<rparr>\<rparr>"

section \<open>The level\<close>

text \<open>
  Block objects are shared between the list \<^verbatim>\<open>Level.blocks\<close> and the loops that flag them,
  and \<^verbatim>\<open>list.remove\<close> compares objects by identity. The model therefore keeps the Block
  objects in a store indexed by object reference (a natural number), and \<open>blocks\<close> is the
  list of references.
\<close>

record GameState =
  ball_released_speed :: Vector2
  score :: int
  lifes :: int
  is_game_over :: bool
  is_ball_released :: bool
  is_player_won :: bool

record Level =
  blocks :: "nat list"
  heap :: "nat \<Rightarrow> Block"
  platform :: MovableEntity
  ball :: MovableEntity
  edges :: Rect
  state :: GameState

definition reset_ball :: "Level \<Rightarrow> Level" where
  "reset_ball L =
     (let r1 = set_bottom (rect_top (rect (platform L))) (rect (ball L));
          r2 = set_centerx (rect_centerx (rect (platform L))) r1
      in L\<lparr>ball := (ball L)\<lparr>rect := r2, speed := \<lparr>vec_x = 0, vec_y = 0\<rparr>\<rparr>,
            state := (state L)\<lparr>is_ball_released := False\<rparr>\<rparr>)"

definition release_ball :: "Level \<Rightarrow> Level" where
  "release_ball L =
     (if \<not> is_ball_released (state L)
      then L\<lparr>state := (state L)\<lparr>is_ball_released := True\<rparr>,
             ball := (ball L)\<lparr>speed := ball_released_speed (state L)\<rparr>\<rparr>
      else L)"

definition adjust_on_x_collision :: "MovableEntity \<Rightarrow> 'a Entity_scheme \<Rightarrow> MovableEntity" where
  "adjust_on_x_collision m e =
     (let r = (if rect_right (rect m) > rect_left (rect e) \<and> rect_right (rect m) < rect_right (rect e)
               then set_right (rect_left (rect e)) (rect m)
               else set_left (rect_right (rect e)) (rect m))
      in m\<lparr>rect := r, speed := (speed m)\<lparr>vec_x := - vec_x (speed m)\<rparr>\<rparr>)"

definition adjust_on_y_collision :: "MovableEntity \<Rightarrow> MovableEntity" where
  "adjust_on_y_collision m =
     m\<lparr>rect := (rect m)\<lparr>rect_y := to_int (of_int (rect_y (rect m)) - vec_y (speed m))\<rparr>,
       speed := (speed m)\<lparr>vec_y := - vec_y (speed m)\<rparr>\<rparr>"

subsection \<open>Key presses\<close>

record Keys =
  key_ctrl :: bool
  key_a :: bool
  key_d :: bool

definition key_update :: "Level \<Rightarrow> Level" where
  \<comment> \<open>the local function \<^verbatim>\<open>update\<close> of \<^verbatim>\<open>process_key_presses\<close>\<close>
  "key_update L =
     (let L1 = L\<lparr>platform := platform_move (platform L)\<rparr>
      in if \<not> is_ball_released (state L1)
         then L1\<lparr>ball := (ball L1)\<lparr>rect :=
                 set_centerx (rect_centerx (rect (platform L1)))
                   (set_bottom (rect_top (rect (platform L1))) (rect (ball L1)))\<rparr>\<rparr>
         else L1)"

definition set_platform_speed_x :: "rat \<Rightarrow> Level \<Rightarrow> Level" where
  "set_platform_speed_x v L = L\<lparr>platform := (platform L)\<lparr>speed := (speed (platform L))\<lparr>vec_x := v\<rparr>\<rparr>\<rparr>"

definition process_key_presses :: "Keys \<Rightarrow> Level \<Rightarrow> Level" where
  "process_key_presses keys L =
     (let L1 = (if key_ctrl keys then release_ball L else L);
          L2 = (if key_a keys
                then key_update (set_platform_speed_x (- \<bar>vec_x (speed (platform L1))\<bar>) L1)
                else L1);
          L3 = (if key_d keys
                then key_update (set_platform_speed_x \<bar>vec_x (speed (platform L2))\<bar> L2)
                else L2)
      in L3)"

subsection \<open>Collisions\<close>

definition flip_x :: "MovableEntity \<Rightarrow> MovableEntity" where
  "flip_x m = m\<lparr>speed := (speed m)\<lparr>vec_x := - vec_x (speed m)\<rparr>\<rparr>"

definition flip_y :: "MovableEntity \<Rightarrow> MovableEntity" where
  "flip_y m = m\<lparr>speed := (speed m)\<lparr>vec_y := - vec_y (speed m)\<rparr>\<rparr>"

fun blocks_x :: "nat list \<Rightarrow> Level \<Rightarrow> Level" where
  \<comment> \<open>the loop \<^verbatim>\<open>for block in self.blocks\<close> of the X pass; it has no \<^verbatim>\<open>break\<close>\<close>
  "blocks_x [] L = L"
| "blocks_x (b # bs) L =
     (if is_collided_with (ball L) (heap L b)
      then blocks_x bs (L\<lparr>ball := adjust_on_x_collision (ball L) (heap L b),
                          heap := (heap L)(b := set_is_destroyed (heap L b))\<rparr>)
      else blocks_x bs L)"

fun blocks_y :: "nat list \<Rightarrow> Level \<Rightarrow> Level" where
  \<comment> \<open>the loop \<^verbatim>\<open>for block in self.blocks\<close> of the Y pass\<close>
  "blocks_y [] L = L"
| "blocks_y (b # bs) L =
     (if is_collided_with (ball L) (heap L b)
      then blocks_y bs (L\<lparr>ball := adjust_on_y_collision (ball L),
                          heap := (heap L)(b := set_is_destroyed (heap L b))\<rparr>)
      else blocks_y bs L)"

definition x_move :: "Level \<Rightarrow> Level" where
  \<comment> \<open>\<^verbatim>\<open>self.ball.rect.x += self.ball.speed.x\<close>\<close>
  "x_move L = L\<lparr>ball := (ball L)\<lparr>rect := (rect (ball L))
       \<lparr>rect_x := to_int (of_int (rect_x (rect (ball L))) + vec_x (speed (ball L)))\<rparr>\<rparr>\<rparr>"

definition x_resolve :: "Level \<Rightarrow> Level" where
  "x_resolve L =
     (if is_collided_with (ball L) (platform L)
      then L\<lparr>ball := adjust_on_x_collision (ball L) (platform L)\<rparr>
      else if rect_right (rect (ball L)) > rect_right (edges L)
      then L\<lparr>ball := flip_x ((ball L)\<lparr>rect := set_right (rect_right (edges L)) (rect (ball L))\<rparr>)\<rparr>
      else if rect_left (rect (ball L)) < rect_left (edges L)
      then L\<lparr>ball := flip_x ((ball L)\<lparr>rect := set_left (rect_left (edges L)) (rect (ball L))\<rparr>)\<rparr>
      else blocks_x (blocks L) L)"

definition x_pass :: "Level \<Rightarrow> Level" where
  "x_pass L = x_resolve (x_move L)"

definition y_move :: "Level \<Rightarrow> Level" where
  \<comment> \<open>\<^verbatim>\<open>self.ball.rect.y += self.ball.speed.y\<close>\<close>
  "y_move L = L\<lparr>ball := (ball L)\<lparr>rect := (rect (ball L))
       \<lparr>rect_y := to_int (of_int (rect_y (rect (ball L))) + vec_y (speed (ball L)))\<rparr>\<rparr>\<rparr>"

definition lose_life :: "Level \<Rightarrow> Level" where
  \<comment> \<open>\<^verbatim>\<open>self.reset_ball(); self.state.lifes -= 1\<close>\<close>
  "lose_life L = (let L1 = reset_ball L in L1\<lparr>state := (state L1)\<lparr>lifes := lifes (state L1) - 1\<rparr>\<rparr>)"

definition y_resolve :: "Level \<Rightarrow> Level" where
  "y_resolve L =
     (if is_collided_with (ball L) (platform L)
      then L\<lparr>ball := adjust_on_y_collision (ball L)\<rparr>
      else if rect_bottom (rect (ball L)) > rect_bottom (edges L)
      then lose_life L
      else if rect_top (rect (ball L)) < rect_top (edges L)
      then L\<lparr>ball := flip_y ((ball L)\<lparr>rect := set_top (rect_top (edges L)) (rect (ball L))\<rparr>)\<rparr>
      else blocks_y (blocks L) L)"

definition y_pass :: "Level \<Rightarrow> Level" where
  "y_pass L = y_resolve (y_move L)"

definition is_squeezing_on_y :: "Level \<Rightarrow> bool" where
  "is_squeezing_on_y L \<longleftrightarrow>
     rect_bottom (rect (ball L)) < rect_top (rect (platform L))
     \<or> rect_top (rect (ball L)) < rect_bottom (rect (platform L))"

definition is_squeezing_on_x :: "Level \<Rightarrow> bool" where
  "is_squeezing_on_x L \<longleftrightarrow>
     rect_right (rect (ball L)) > rect_right (edges L)
     \<or> rect_left (rect (ball L)) < rect_left (edges L)"

definition squeeze :: "Level \<Rightarrow> Level" where
  "squeeze L =
     (if is_squeezing_on_y L \<and> is_squeezing_on_x L
      then L\<lparr>ball := (ball L)\<lparr>rect := set_top (rect_bottom (rect (platform L))) (rect (ball L))\<rparr>\<rparr>
      else L)"

definition platform_clamp :: "Level \<Rightarrow> Level" where
  "platform_clamp L =
     (if rect_right (rect (platform L)) > rect_right (edges L)
      then L\<lparr>platform := flip_x ((platform L)\<lparr>rect := set_right (rect_right (edges L)) (rect (platform L))\<rparr>)\<rparr>
      else if rect_left (rect (platform L)) < rect_left (edges L)
      then L\<lparr>platform := flip_x ((platform L)\<lparr>rect := set_left (rect_left (edges L)) (rect (platform L))\<rparr>)\<rparr>
      else L)"

definition process_collisions :: "Level \<Rightarrow> Level" where
  "process_collisions L = platform_clamp (squeeze (y_pass (x_pass L)))"

subsection \<open>The tick\<close>

definition speed_up :: "MovableEntity \<Rightarrow> MovableEntity" where
  \<comment> \<open>\<^verbatim>\<open>self.ball.speed *= 1.02\<close>\<close>
  "speed_up m = m\<lparr>speed := \<lparr>vec_x = vec_x (speed m) * (51 / 50), vec_y = vec_y (speed m) * (51 / 50)\<rparr>\<rparr>"

definition remove_block :: "nat \<Rightarrow> Level \<Rightarrow> Level" where
  \<comment> \<open>the body of the cleanup loop for a flagged block\<close>
  "remove_block b L =
     L\<lparr>blocks := remove1 b (blocks L),
       state := (state L)\<lparr>score := score (state L) + 100\<rparr>,
       ball := speed_up (ball L)\<rparr>"

text \<open>
  The cleanup loop \<^verbatim>\<open>for block in self.blocks: if block.is_destroyed: self.blocks.remove(block) ...\<close>
  removes from the list it iterates over. Python's list iterator keeps an index: each
  round reads the element at the index if the index is still inside the list, and then
  advances by one, whatever the body did to the list.
\<close>

function cleanup :: "nat \<Rightarrow> Level \<Rightarrow> Level" where
  "cleanup i L =
     (if i < length (blocks L)
      then (if is_destroyed (heap L (blocks L ! i))
            then cleanup (Suc i) (remove_block (blocks L ! i) L)
            else cleanup (Suc i) L)
      else L)"
  by pat_completeness auto
termination
  by (relation "measure (\<lambda>(i, L). length (blocks L) - i)")
     (auto simp: remove_block_def length_remove1)

declare cleanup.simps [simp del]

definition finish :: "Level \<Rightarrow> Level" where
  \<comment> \<open>the termination check at the end of \<^verbatim>\<open>Level.update\<close>\<close>
  "finish L =
     (if lifes (state L) < 1 then L\<lparr>state := (state L)\<lparr>is_game_over := True\<rparr>\<rparr>
      else if length (blocks L) = 0 then L\<lparr>state := (state L)\<lparr>is_player_won := True\<rparr>\<rparr>
      else L)"

definition update :: "Keys \<Rightarrow> Level \<Rightarrow> Level" where
  "update keys L = finish (cleanup 0 (process_collisions (process_key_presses keys L)))"

section \<open>The level factory\<close>

text \<open>
  \<^verbatim>\<open>Game.__init__\<close> derives the horizontal margin and the block width from the board, and
  \<^verbatim>\<open>LevelMaker.get_level\<close> lays the blocks out. Of the images only the sizes matter
  (\<^verbatim>\<open>get_size()\<close>). Python's \<^verbatim>\<open>round\<close> rounds a tie to the even neighbour. The float
  products (\<^verbatim>\<open>width * 0.03\<close>, \<^verbatim>\<open>height * 0.06\<close>, \<^verbatim>\<open>height * 0.005\<close>, \<^verbatim>\<open>height * 2.2\<close>)
  and the true division are taken exactly, as rationals.

  The failures of \<^verbatim>\<open>Game.__init__\<close> are branches of the model: the division by
  \<^verbatim>\<open>num_of_columns\<close> raises \<^verbatim>\<open>ZeroDivisionError\<close> at zero, and \<^verbatim>\<open>pygame.Surface\<close>
  raises for a size it cannot take. \<^verbatim>\<open>pygame.Surface\<close> reads each side as a C long
  (\<^verbatim>\<open>ValueError\<close> when it does not fit) and casts it to a C int, and it raises
  \<^verbatim>\<open>pygame.error\<close> when the C int is negative: so for a negative side, and also for a side
  from \<open>2^31\<close> on whose low 32 bits read as a negative number. Whether the memory for
  a very large surface can be had is outside the model. Neither \<^verbatim>\<open>Game.__init__\<close> nor
  \<^verbatim>\<open>get_level\<close> contains a check of its own.
\<close>

record Edges =
  width :: int
  height :: int

datatype error = ZeroDivisionError | PygameError | ValueError

definition py_round :: "rat \<Rightarrow> int" where
  "py_round q =
     (let f = \<lfloor>q\<rfloor>; d = q - of_int f
      in if d < 1 / 2 then f
         else if 1 / 2 < d then f + 1
         else if even f then f else f + 1)"

record Images =
  platform_image :: "int \<times> int"
  ball_image :: "int \<times> int"
  block_image :: "int \<times> int"

record LevelMaker =
  maker_edges :: Edges
  images :: Images
  horizontal_margin :: int
  vertical_margin :: int
  num_of_rows :: int

record Game =
  game_edges :: Edges
  game_images :: Images
  level_maker :: LevelMaker

definition fits_c_long :: "int \<Rightarrow> bool" where
  "fits_c_long v \<longleftrightarrow> - 9223372036854775808 \<le> v \<and> v < 9223372036854775808"

definition Surface :: "int \<times> int \<Rightarrow> error + (int \<times> int)" where
  "Surface sz =
     (if fits_c_long (fst sz) \<and> fits_c_long (snd sz)
      then (if c_int (fst sz) < 0 \<or> c_int (snd sz) < 0 then Inl PygameError
            else Inr (c_int (fst sz), c_int (snd sz)))
      else Inl ValueError)"

definition derived_margin :: "Edges \<Rightarrow> int" where
  \<comment> \<open>the local \<^verbatim>\<open>horizontal_margin\<close> of \<^verbatim>\<open>Game.__init__\<close>\<close>
  "derived_margin e = py_round (of_int (width e) * (3 / 100))"

definition derived_block_width :: "Edges \<Rightarrow> int \<Rightarrow> int" where
  \<comment> \<open>the local \<^verbatim>\<open>block_width\<close> of \<^verbatim>\<open>Game.__init__\<close>, for a number of columns other than 0\<close>
  "derived_block_width e num_of_columns =
     py_round (of_int (width e - derived_margin e * 2 - derived_margin e * num_of_columns)
               / of_int num_of_columns)"

definition Game_init :: "Edges \<Rightarrow> int \<Rightarrow> int \<Rightarrow> error + Game" where
  "Game_init e num_of_columns rows =
     (if num_of_columns = 0 then Inl ZeroDivisionError
      else case Surface (derived_block_width e num_of_columns, 20) of
             Inl err \<Rightarrow> Inl err
           | Inr block_size \<Rightarrow>
               let imgs = \<lparr>platform_image = (65, 20), ball_image = (15, 15),
                           block_image = block_size\<rparr>
               in Inr \<lparr>game_edges = e, game_images = imgs,
                       level_maker = \<lparr>maker_edges = e, images = imgs,
                                       horizontal_margin = derived_margin e,
                                       vertical_margin = py_round (of_int (height e) * (6 / 100)),
                                       num_of_rows = rows\<rparr>\<rparr>)"

definition new_Rect :: "int \<times> int \<Rightarrow> int \<times> int \<Rightarrow> Rect" where
  \<comment> \<open>\<^verbatim>\<open>pygame.Rect(pos, size)\<close>, for arguments that fit a C long: each is cast to a C int\<close>
  "new_Rect pos sz = \<lparr>rect_x = c_int (fst pos), rect_y = c_int (snd pos),
                      rect_w = c_int (fst sz), rect_h = c_int (snd sz)\<rparr>"

text \<open>
  The inner loop \<^verbatim>\<open>while x + block_width < width\<close> advances \<open>x\<close> by the block width
  plus the margin. Nothing keeps that step positive, so the loop may run forever: it is a
  partial function, and \<open>None\<close> stands for a call that never returns.
\<close>

partial_function (option) place_row ::
  "int \<Rightarrow> int \<Rightarrow> int \<times> int \<Rightarrow> int \<Rightarrow> int \<Rightarrow> Block list \<Rightarrow> Block list option" where
  "place_row w margin sz y x acc =
     (if x + fst sz < w
      then place_row w margin sz y (x + (fst sz + margin)) (acc @ [new_Block (new_Rect (x, y) sz)])
      else Some acc)"

declare place_row.simps [code]

fun place_rows :: "LevelMaker \<Rightarrow> nat \<Rightarrow> int \<Rightarrow> Block list \<Rightarrow> Block list option" where
  \<comment> \<open>\<^verbatim>\<open>for i in range(0, self.num_of_rows)\<close>, with the rounds still to run as the counter\<close>
  "place_rows mk 0 y acc = Some acc"
| "place_rows mk (Suc n) y acc =
     (case place_row (width (maker_edges mk)) (horizontal_margin mk) (block_image (images mk))
             y (horizontal_margin mk) acc of
        None \<Rightarrow> None
      | Some acc' \<Rightarrow> place_rows mk n (y + vertical_margin mk) acc')"

definition Level_init ::
  "int \<Rightarrow> Block list \<Rightarrow> MovableEntity \<Rightarrow> MovableEntity \<Rightarrow> Edges \<Rightarrow> int \<Rightarrow> Level" where
  \<comment> \<open>\<^verbatim>\<open>Level.__init__\<close>; the Block objects of the list get the references \<open>0, 1, ...\<close>\<close>
  "Level_init lifes0 bs platform0 ball0 e top_start =
     reset_ball
       \<lparr>blocks = [0..<length bs],
        heap = (\<lambda>r. if r < length bs then bs ! r else new_Block (new_Rect (0, 0) (0, 0))),
        platform = platform0,
        ball = ball0,
        edges = new_Rect (0, top_start) (width e, height e),
        state = \<lparr>ball_released_speed = speed ball0, score = 0, lifes = lifes0,
                 is_game_over = False, is_ball_released = False, is_player_won = False\<rparr>\<rparr>"

definition get_level :: "LevelMaker \<Rightarrow> Level option" where
  "get_level mk =
     (let e = maker_edges mk;
          platform0 = \<lparr>rect = new_Rect (to_int (of_int (width e) / 2), to_int (of_int (height e) * (3 / 4)))
                                       (platform_image (images mk)),
                       speed = \<lparr>vec_x = 5, vec_y = 0\<rparr>\<rparr>;
          ball0 = \<lparr>rect = new_Rect (0, 0) (ball_image (images mk)),
                   speed = \<lparr>vec_x = of_int (py_round (of_int (height e) * (1 / 200))),
                            vec_y = of_int (- py_round (of_int (height e) * (1 / 200)))\<rparr>\<rparr>;
          top_margin = rect_h (rect ball0) * 3;
          y = py_round (of_int (rect_h (rect ball0)) * (11 / 5) + of_int top_margin)
      in case place_rows mk (nat (num_of_rows mk)) y [] of
           None \<Rightarrow> None
         | Some bs \<Rightarrow> Some (Level_init 4 bs platform0 ball0 e top_margin))"

section \<open>The game loop\<close>

text \<open>
  One round of the loop \<^verbatim>\<open>while running\<close> of \<^verbatim>\<open>Game.run\<close>: the queued events are handled,
  then the level is updated unless the game is over, won or paused. Drawing and the clock
  change no state of the level. A round gets the events of \<^verbatim>\<open>pygame.event.get()\<close> and the
  keys held down (\<^verbatim>\<open>pygame.key.get_pressed()\<close>).
\<close>

datatype Key = K_SPACE | K_q | K_DELETE | K_other

datatype Event = QUIT | KEYDOWN Key | OtherEvent

record RunState =
  running :: bool
  is_paused :: bool
  level :: Level
  is_menu_showing :: bool

fun handle_event :: "LevelMaker \<Rightarrow> Event \<Rightarrow> RunState \<Rightarrow> RunState option" where
  "handle_event mk QUIT st = Some (st\<lparr>running := False\<rparr>)"
| "handle_event mk (KEYDOWN K_SPACE) st =
     Some (st\<lparr>is_paused := \<not> is_paused st, is_menu_showing := False\<rparr>)"
| "handle_event mk (KEYDOWN K_q) st = Some (st\<lparr>running := False\<rparr>)"
| "handle_event mk (KEYDOWN K_DELETE) st =
     (case get_level mk of
        None \<Rightarrow> None
      | Some fresh \<Rightarrow> Some (st\<lparr>level := fresh, is_paused := False, is_menu_showing := True\<rparr>))"
| "handle_event mk _ st = Some st"

fun handle_events :: "LevelMaker \<Rightarrow> Event list \<Rightarrow> RunState \<Rightarrow> RunState option" where
  "handle_events mk [] st = Some st"
| "handle_events mk (ev # evs) st =
     (case handle_event mk ev st of None \<Rightarrow> None | Some st' \<Rightarrow> handle_events mk evs st')"

definition tick :: "Keys \<Rightarrow> RunState \<Rightarrow> RunState" where
  \<comment> \<open>the chain \<^verbatim>\<open>if is_game_over ... elif is_player_won ... elif not is_paused: level.update()\<close>\<close>
  "tick keys st =
     (if is_game_over (state (level st)) then st
      else if is_player_won (state (level st)) then st
      else if \<not> is_paused st then st\<lparr>level := update keys (level st)\<rparr>
      else st)"

definition frame :: "LevelMaker \<Rightarrow> Event list \<times> Keys \<Rightarrow> RunState \<Rightarrow> RunState option" where
  "frame mk inp st =
     (case handle_events mk (fst inp) st of
        None \<Rightarrow> None
      | Some st' \<Rightarrow> Some (tick (snd inp) st'))"

fun run_frames :: "LevelMaker \<Rightarrow> (Event list \<times> Keys) list \<Rightarrow> RunState \<Rightarrow> RunState option" where
  \<comment> \<open>the loop itself, on the inputs of the rounds to come; it stops when \<open>running\<close> is off\<close>
  "run_frames mk [] st = Some st"
| "run_frames mk (inp # inps) st =
     (if running st
      then (case frame mk inp st of None \<Rightarrow> None | Some st' \<Rightarrow> run_frames mk inps st')
      else Some st)"

definition run_start :: "LevelMaker \<Rightarrow> RunState option" where
  \<comment> \<open>the game setup before the loop\<close>
  "run_start mk =
     (case get_level mk of
        None \<Rightarrow> None
      | Some l \<Rightarrow> Some \<lparr>running = True, is_paused = False, level = l, is_menu_showing = True\<rparr>)"

section \<open>Closed forms of the layout loops\<close>

text \<open>
  Auxiliary functions for the proofs: what the loops of \<^verbatim>\<open>get_level\<close> compute when the
  step of the inner loop is positive. \<open>row_count\<close> is the number of blocks of a row that
  starts at \<open>x\<close>: the number of \<open>k \<ge> 0\<close> with \<open>x + k * step + block_width < w\<close>.
\<close>

definition row_count :: "int \<Rightarrow> int \<Rightarrow> int \<times> int \<Rightarrow> int \<Rightarrow> nat" where
  "row_count w margin sz x = nat ((w - x + margin - 1) div (fst sz + margin))"

definition row_blocks :: "int \<Rightarrow> int \<Rightarrow> int \<times> int \<Rightarrow> int \<Rightarrow> int \<Rightarrow> Block list" where
  "row_blocks w margin sz y x =
     map (\<lambda>k. new_Block (new_Rect (x + int k * (fst sz + margin), y) sz))
       [0..<row_count w margin sz x]"

definition layout :: "LevelMaker \<Rightarrow> nat \<Rightarrow> int \<Rightarrow> Block list" where
  "layout mk n y =
     concat (map (\<lambda>i. row_blocks (width (maker_edges mk)) (horizontal_margin mk)
                          (block_image (images mk)) (y + int i * vertical_margin mk)
                          (horizontal_margin mk))
               [0..<n])"

definition fresh_level :: "LevelMaker \<Rightarrow> Level" where
  \<comment> \<open>the level that \<^verbatim>\<open>get_level\<close> returns when it returns\<close>
  "fresh_level mk =
     (let e = maker_edges mk;
          platform0 = \<lparr>rect = new_Rect (to_int (of_int (width e) / 2), to_int (of_int (height e) * (3 / 4)))
                                       (platform_image (images mk)),
                       speed = \<lparr>vec_x = 5, vec_y = 0\<rparr>\<rparr>;
          ball0 = \<lparr>rect = new_Rect (0, 0) (ball_image (images mk)),
                   speed = \<lparr>vec_x = of_int (py_round (of_int (height e) * (1 / 200))),
                            vec_y = of_int (- py_round (of_int (height e) * (1 / 200)))\<rparr>\<rparr>;
          top_margin = rect_h (rect ball0) * 3;
          y = py_round (of_int (rect_h (rect ball0)) * (11 / 5) + of_int top_margin)
      in Level_init 4 (layout mk (nat (num_of_rows mk)) y) platform0 ball0 e top_margin)"

section \<open>The specification's wording\<close>

text \<open>
  Two functions written after the words of the specification, not after the code, to
  compare the code with: the specification's \<^verbatim>\<open>resolveAxisX\<close>, and the number of
  columns per row of its Scenario A.
\<close>

definition resolveAxisX_spec :: "MovableEntity \<Rightarrow> 'a Entity_scheme \<Rightarrow> MovableEntity" where
  \<comment> \<open>"if the mover's leading (right) edge is inside the obstacle's span but its trailing edge
      is not, snap mover's right edge to obstacle's left edge; otherwise snap mover's left
      edge to obstacle's right edge. Reflect the mover's X velocity."\<close>
  "resolveAxisX_spec m e =
     (let right_inside = (rect_left (rect e) < rect_right (rect m) \<and> rect_right (rect m) < rect_right (rect e));
          left_inside = (rect_left (rect e) < rect_left (rect m) \<and> rect_left (rect m) < rect_right (rect e));
          r = (if right_inside \<and> \<not> left_inside
               then set_right (rect_left (rect e)) (rect m)
               else set_left (rect_right (rect e)) (rect m))
      in m\<lparr>rect := r, speed := (speed m)\<lparr>vec_x := - vec_x (speed m)\<rparr>\<rparr>)"

definition spec_columns_fit_per_row :: "LevelMaker \<Rightarrow> int" where
  \<comment> \<open>"floor((700 - 2 x margin) / (block_width + margin))", for the board width of the maker\<close>
  "spec_columns_fit_per_row mk =
     \<lfloor>(of_int (width (maker_edges mk) - 2 * horizontal_margin mk) :: rat)
        / of_int (fst (block_image (images mk)) + horizontal_margin mk)\<rfloor>"

section \<open>Example inputs\<close>

definition no_keys :: Keys where
  "no_keys = \<lparr>key_ctrl = False, key_a = False, key_d = False\<rparr>"

definition scenario_A_maker :: LevelMaker where
  \<comment> \<open>the maker that \<^verbatim>\<open>Game(Edges(700, 500), 10, 5)\<close> builds\<close>
  "scenario_A_maker =
     \<lparr>maker_edges = \<lparr>width = 700, height = 500\<rparr>,
      images = \<lparr>platform_image = (65, 20), ball_image = (15, 15), block_image = (45, 20)\<rparr>,
      horizontal_margin = 21, vertical_margin = 30, num_of_rows = 5\<rparr>"

definition lost_level :: Level where
  \<comment> \<open>a level of the 700 x 500 board after the last life is gone, two blocks left\<close>
  "lost_level =
     \<lparr>blocks = [0, 1],
      heap = (\<lambda>r. new_Block (new_Rect (21 + 66 * int r, 78) (45, 20))),
      platform = \<lparr>rect = new_Rect (350, 375) (65, 20), speed = \<lparr>vec_x = 5, vec_y = 0\<rparr>\<rparr>,
      ball = \<lparr>rect = new_Rect (375, 360) (15, 15), speed = \<lparr>vec_x = 0, vec_y = 0\<rparr>\<rparr>,
      edges = new_Rect (0, 45) (700, 500),
      state = \<lparr>ball_released_speed = \<lparr>vec_x = 2, vec_y = - 2\<rparr>, score = 4800, lifes = 0,
               is_game_over = True, is_ball_released = False, is_player_won = False\<rparr>\<rparr>"

definition lost_run :: RunState where
  "lost_run = \<lparr>running = True, is_paused = False, level = lost_level, is_menu_showing = False\<rparr>"

definition narrow_maker :: LevelMaker where
  \<comment> \<open>the maker that \<^verbatim>\<open>Game(Edges(400, 500), 10, 11)\<close> builds\<close>
  "narrow_maker =
     \<lparr>maker_edges = \<lparr>width = 400, height = 500\<rparr>,
      images = \<lparr>platform_image = (65, 20), ball_image = (15, 15), block_image = (26, 20)\<rparr>,
      horizontal_margin = 12, vertical_margin = 30, num_of_rows = 11\<rparr>"

definition leftover_level :: Level where
  \<comment> \<open>a level of the 700 x 500 board whose second block is flagged and still listed,
      the ball in flight\<close>
  "leftover_level =
     \<lparr>blocks = [0, 1],
      heap = (\<lambda>r. new_Block (new_Rect (21 + 66 * int r, 78) (45, 20)))
               (1 := set_is_destroyed (new_Block (new_Rect (87, 78) (45, 20)))),
      platform = \<lparr>rect = new_Rect (350, 375) (65, 20), speed = \<lparr>vec_x = 5, vec_y = 0\<rparr>\<rparr>,
      ball = \<lparr>rect = new_Rect (375, 300) (15, 15), speed = \<lparr>vec_x = 2, vec_y = - 2\<rparr>\<rparr>,
      edges = new_Rect (0, 45) (700, 500),
      state = \<lparr>ball_released_speed = \<lparr>vec_x = 2, vec_y = - 2\<rparr>, score = 4700, lifes = 3,
               is_game_over = False, is_ball_released = True, is_player_won = False\<rparr>\<rparr>"

definition waiting_level :: Level where
  \<comment> \<open>a level of the 700 x 500 board with the ball still tied to the paddle\<close>
  "waiting_level =
     \<lparr>blocks = [0, 1],
      heap = (\<lambda>r. new_Block (new_Rect (21 + 66 * int r, 78) (45, 20))),
      platform = \<lparr>rect = new_Rect (350, 375) (65, 20), speed = \<lparr>vec_x = 5, vec_y = 0\<rparr>\<rparr>,
      ball = \<lparr>rect = new_Rect (375, 360) (15, 15), speed = \<lparr>vec_x = 0, vec_y = 0\<rparr>\<rparr>,
      edges = new_Rect (0, 45) (700, 500),
      state = \<lparr>ball_released_speed = \<lparr>vec_x = 2, vec_y = - 2\<rparr>, score = 4800, lifes = 3,
               is_game_over = False, is_ball_released = False, is_player_won = False\<rparr>\<rparr>"

definition scenario_B_paddle :: MovableEntity where
  "scenario_B_paddle = \<lparr>rect = new_Rect (350, 375) (65, 20), speed = \<lparr>vec_x = 5, vec_y = 0\<rparr>\<rparr>"

definition scenario_B_ball :: MovableEntity where
  \<comment> \<open>moving right, its right edge 5 inside the paddle, its left edge outside\<close>
  "scenario_B_ball = \<lparr>rect = new_Rect (340, 365) (15, 15), speed = \<lparr>vec_x = 2, vec_y = - 2\<rparr>\<rparr>"

definition right_side_ball :: MovableEntity where
  \<comment> \<open>overlapping the right end of the paddle\<close>
  "right_side_ball = \<lparr>rect = new_Rect (410, 365) (15, 15), speed = \<lparr>vec_x = - 2, vec_y = - 2\<rparr>\<rparr>"

definition inner_ball :: MovableEntity where
  \<comment> \<open>overlapping the paddle with both its left and its right edge inside the paddle's span\<close>
  "inner_ball = \<lparr>rect = new_Rect (370, 380) (15, 15), speed = \<lparr>vec_x = 2, vec_y = - 2\<rparr>\<rparr>"

definition squeezed_level :: Level where
  \<comment> \<open>the paddle 10 from the left wall, the ball between them at the height of the paddle\<close>
  "squeezed_level =
     \<lparr>blocks = [0, 1],
      heap = (\<lambda>r. new_Block (new_Rect (21 + 66 * int r, 78) (45, 20))),
      platform = \<lparr>rect = new_Rect (10, 375) (65, 20), speed = \<lparr>vec_x = - 5, vec_y = 0\<rparr>\<rparr>,
      ball = \<lparr>rect = new_Rect (0, 378) (15, 15), speed = \<lparr>vec_x = - 2, vec_y = 2\<rparr>\<rparr>,
      edges = new_Rect (0, 45) (700, 500),
      state = \<lparr>ball_released_speed = \<lparr>vec_x = 2, vec_y = - 2\<rparr>, score = 4800, lifes = 3,
               is_game_over = False, is_ball_released = True, is_player_won = False\<rparr>\<rparr>"

definition wall_level :: Level where
  \<comment> \<open>the last life: the paddle at the right wall, the ball falling past it\<close>
  "wall_level =
     \<lparr>blocks = [0, 1],
      heap = (\<lambda>r. new_Block (new_Rect (21 + 66 * int r, 78) (45, 20))),
      platform = \<lparr>rect = new_Rect (635, 375) (65, 20), speed = \<lparr>vec_x = 5, vec_y = 0\<rparr>\<rparr>,
      ball = \<lparr>rect = new_Rect (300, 532) (15, 15), speed = \<lparr>vec_x = 2, vec_y = 2\<rparr>\<rparr>,
      edges = new_Rect (0, 45) (700, 500),
      state = \<lparr>ball_released_speed = \<lparr>vec_x = 2, vec_y = - 2\<rparr>, score = 4800, lifes = 1,
               is_game_over = False, is_ball_released = True, is_player_won = False\<rparr>\<rparr>"


section \<open>Basic facts\<close>

lemmas rect_defs = rect_left_def rect_right_def rect_top_def rect_bottom_def rect_centerx_def
  set_left_def set_right_def set_top_def set_bottom_def set_centerx_def

lemmas key_defs = process_key_presses_def key_update_def set_platform_speed_x_def
  release_ball_def platform_move_def Let_def

subsection \<open>The layout loops\<close>

lemma row_count_done: "0 < fst sz + margin \<Longrightarrow> \<not> x + fst sz < w \<Longrightarrow> row_count w margin sz x = 0"
proof -
  assume s: "0 < fst sz + margin" and d: "\<not> x + fst sz < w"
  then have "w - x + margin - 1 < fst sz + margin" by simp
  moreover have "(w - x + margin - 1) div (fst sz + margin) \<le> 0"
  proof (cases "0 \<le> w - x + margin - 1")
    case True
    with \<open>w - x + margin - 1 < fst sz + margin\<close> show ?thesis by (simp add: div_pos_pos_trivial)
  next
    case False
    with s have "(w - x + margin - 1) div (fst sz + margin) < 0"
      by (simp add: div_neg_pos_less0)
    then show ?thesis by simp
  qed
  ultimately show ?thesis by (simp add: row_count_def)
qed

lemma row_count_step:
  assumes s: "0 < fst sz + margin" and d: "x + fst sz < w"
  shows "row_count w margin sz x = Suc (row_count w margin sz (x + (fst sz + margin)))"
proof -
  let ?s = "fst sz + margin"
  let ?a = "w - (x + ?s) + margin - 1"
  have a0: "0 \<le> ?a" using d by simp
  have "w - x + margin - 1 = ?a + ?s" by simp
  then have "(w - x + margin - 1) div ?s = ?a div ?s + 1"
    using s by (metis div_add_self2 less_numeral_extra(3))
  moreover have "0 \<le> ?a div ?s" using a0 s by (simp add: pos_imp_zdiv_nonneg_iff)
  ultimately show ?thesis by (simp add: row_count_def nat_add_distrib)
qed

lemma place_row_closed:
  assumes s: "0 < fst sz + margin"
  shows "place_row w margin sz y x acc = Some (acc @ row_blocks w margin sz y x)"
proof (induction "row_count w margin sz x" arbitrary: x acc)
  case 0
  have "\<not> x + fst sz < w"
  proof
    assume "x + fst sz < w"
    from row_count_step [OF s this] 0 show False by simp
  qed
  with 0 show ?case
    by (subst place_row.simps) (simp add: row_blocks_def)
next
  case (Suc n)
  have d: "x + fst sz < w"
  proof (rule ccontr)
    assume "\<not> x + fst sz < w"
    from row_count_done [OF s this] Suc.hyps(2) show False by simp
  qed
  from row_count_step [OF s d] Suc.hyps(2)
  have n: "n = row_count w margin sz (x + (fst sz + margin))" by simp
  have shift: "row_blocks w margin sz y x
      = new_Block (new_Rect (x, y) sz) # row_blocks w margin sz y (x + (fst sz + margin))"
  proof -
    have "[0..<Suc n] = 0 # map Suc [0..<n]"
      by (simp add: upt_conv_Cons map_Suc_upt del: upt_Suc)
    then show ?thesis
      unfolding row_blocks_def Suc.hyps(2) [symmetric] n [symmetric]
      by (simp add: comp_def algebra_simps del: upt_Suc)
  qed
  show ?case
    by (subst place_row.simps) (simp add: d Suc.hyps(1) [OF n] shift)
qed

lemma place_rows_closed:
  assumes s: "0 < fst (block_image (images mk)) + horizontal_margin mk"
  shows "place_rows mk n y acc = Some (acc @ layout mk n y)"
proof (induction n arbitrary: y acc)
  case 0
  show ?case by (simp add: layout_def)
next
  case (Suc n)
  have "[0..<Suc n] = 0 # map Suc [0..<n]"
    by (simp add: upt_conv_Cons map_Suc_upt del: upt_Suc)
  then have "layout mk (Suc n) y
     = row_blocks (width (maker_edges mk)) (horizontal_margin mk) (block_image (images mk)) y
         (horizontal_margin mk) @ layout mk n (y + vertical_margin mk)"
    unfolding layout_def by (simp add: comp_def algebra_simps del: upt_Suc)
  then show ?case
    by (simp add: place_row_closed [OF s] Suc.IH)
qed

lemma get_level_closed:
  assumes "0 < fst (block_image (images mk)) + horizontal_margin mk"
  shows "get_level mk = Some (fresh_level mk)"
  by (simp add: get_level_def fresh_level_def Let_def place_rows_closed [OF assms])

lemma narrow_game: "Game_init \<lparr>width = 400, height = 500\<rparr> 10 11
  = Inr \<lparr>game_edges = \<lparr>width = 400, height = 500\<rparr>,
         game_images = \<lparr>platform_image = (65, 20), ball_image = (15, 15), block_image = (26, 20)\<rparr>,
         level_maker = narrow_maker\<rparr>"
  by code_simp

lemma place_row_diverges:
  assumes "fst sz + margin \<le> 0" and "x + fst sz < w"
  shows "place_row w margin sz y x acc = None"
proof (rule ccontr)
  assume "place_row w margin sz y x acc \<noteq> None"
  then obtain res where r: "place_row w margin sz y x acc = Some res" by auto
  have "fst sz + margin \<le> 0 \<longrightarrow> \<not> x + fst sz < w"
  proof (rule place_row.raw_induct
      [where P = "\<lambda>w margin sz y x acc res. \<not> (fst sz + margin \<le> 0 \<and> x + fst sz < w)"
         and xa = "(((((w, margin), sz), y), x), acc)" and ya = res, simplified])
    fix f :: "int \<Rightarrow> int \<Rightarrow> int \<times> int \<Rightarrow> int \<Rightarrow> int \<Rightarrow> Block list \<Rightarrow> Block list option"
      and w' m' :: int and sz' :: "int \<times> int" and y' x' :: int and acc' res' :: "Block list"
    assume IH: "\<And>a1 a2 a3 a4 a5 a6 r. f a1 a2 a3 a4 a5 a6 = Some r
              \<Longrightarrow> fst a3 + a2 \<le> 0 \<longrightarrow> \<not> a5 + fst a3 < a1"
      and body: "(if x' + fst sz' < w'
                  then f w' m' sz' y' (x' + (fst sz' + m')) (acc' @ [new_Block (new_Rect (x', y') sz')])
                  else Some acc') = Some res'"
    show "fst sz' + m' \<le> 0 \<longrightarrow> \<not> x' + fst sz' < w'"
    proof (intro impI notI)
      assume s: "fst sz' + m' \<le> 0" and d: "x' + fst sz' < w'"
      from body d
      have "f w' m' sz' y' (x' + (fst sz' + m')) (acc' @ [new_Block (new_Rect (x', y') sz')]) = Some res'"
        by simp
      from IH [OF this] s have "\<not> x' + (fst sz' + m') + fst sz' < w'" by simp
      with s d show False by simp
    qed
  next
    show "place_row w margin sz y x acc = Some res" by (rule r)
  qed
  with assms show False by simp
qed



lemma get_level_diverges:
  assumes "fst (block_image (images mk)) + horizontal_margin mk \<le> 0"
    and "horizontal_margin mk + fst (block_image (images mk)) < width (maker_edges mk)"
    and "0 < num_of_rows mk"
  shows "get_level mk = None"
proof -
  from assms(3) obtain n where n: "nat (num_of_rows mk) = Suc n"
    by (cases "nat (num_of_rows mk)") auto
  show ?thesis
    by (simp add: get_level_def Let_def n place_row_diverges [OF assms(1,2)])
qed

lemma layout_empty:
  "n = 0 \<or> width (maker_edges mk) \<le> horizontal_margin mk + fst (block_image (images mk)) \<Longrightarrow>
   0 < fst (block_image (images mk)) + horizontal_margin mk \<Longrightarrow> layout mk n y = []"
  by (auto simp: layout_def row_blocks_def row_count_done)

lemma fresh_level_lifes: "lifes (state (fresh_level mk)) = 4"
  by (simp add: fresh_level_def Level_init_def reset_ball_def Let_def)

lemma fresh_level_blocks: "blocks (fresh_level mk)
   = [0..<length (layout mk (nat (num_of_rows mk))
        (py_round (of_int (c_int (snd (ball_image (images mk)))) * (11 / 5)
                   + of_int (c_int (snd (ball_image (images mk))) * 3))))]"
  by (simp add: fresh_level_def Level_init_def reset_ball_def Let_def new_Rect_def)

text \<open>
  A block width that does not fit a C int is refused by \<^verbatim>\<open>pygame.Surface\<close>: for
  \<^verbatim>\<open>Game(Edges(3000000000, 500), 1, 1)\<close> the derived width is 2730000000, whose low 32 bits
  read as a negative number.
\<close>

lemma Game_init_wide_board:
  "derived_block_width \<lparr>width = 3000000000, height = 500\<rparr> 1 = 2730000000
   \<and> Game_init \<lparr>width = 3000000000, height = 500\<rparr> 1 1 = Inl PygameError"
  by code_simp

subsection \<open>Key presses\<close>

lemma keys_blocks [simp]: "blocks (process_key_presses keys L) = blocks L"
  by (simp add: key_defs)

lemma keys_heap [simp]: "heap (process_key_presses keys L) = heap L"
  by (simp add: key_defs)

lemma keys_edges [simp]: "edges (process_key_presses keys L) = edges L"
  by (simp add: key_defs)

lemma keys_lifes [simp]: "lifes (state (process_key_presses keys L)) = lifes (state L)"
  by (simp add: key_defs)

lemma keys_score [simp]: "score (state (process_key_presses keys L)) = score (state L)"
  by (simp add: key_defs)

lemma keys_speed:
  "\<not> (key_ctrl keys \<and> \<not> is_ball_released (state L)) \<Longrightarrow>
   speed (ball (process_key_presses keys L)) = speed (ball L)"
  by (auto simp: key_defs)

subsection \<open>The X pass\<close>

lemma blocks_x_blocks [simp]: "blocks (blocks_x bs L) = blocks L"
  by (induction bs arbitrary: L) auto

lemma blocks_x_platform [simp]: "platform (blocks_x bs L) = platform L"
  by (induction bs arbitrary: L) auto

lemma blocks_x_edges [simp]: "edges (blocks_x bs L) = edges L"
  by (induction bs arbitrary: L) auto

lemma blocks_x_state [simp]: "state (blocks_x bs L) = state L"
  by (induction bs arbitrary: L) auto

lemma blocks_x_rect [simp]: "rect (heap (blocks_x bs L) r) = rect (heap L r)"
  by (induction bs arbitrary: L) (auto simp: set_is_destroyed_def)

lemma blocks_x_flag: "is_destroyed (heap L r) \<Longrightarrow> is_destroyed (heap (blocks_x bs L) r)"
  by (induction bs arbitrary: L) (auto simp: set_is_destroyed_def)

lemma blocks_x_other: "r \<notin> set bs \<Longrightarrow> heap (blocks_x bs L) r = heap L r"
  by (induction bs arbitrary: L) auto

lemma blocks_x_vec_y [simp]: "vec_y (speed (ball (blocks_x bs L))) = vec_y (speed (ball L))"
  by (induction bs arbitrary: L) (auto simp: adjust_on_x_collision_def Let_def)

lemma blocks_x_abs_vec_x [simp]:
  "\<bar>vec_x (speed (ball (blocks_x bs L)))\<bar> = \<bar>vec_x (speed (ball L))\<bar>"
  by (induction bs arbitrary: L) (auto simp: adjust_on_x_collision_def Let_def)

lemma blocks_x_append: "blocks_x (as @ bs) L = blocks_x bs (blocks_x as L)"
  by (induction as arbitrary: L) auto

lemma blocks_x_flagged_iff:
  "is_destroyed (heap (blocks_x bs L) r) \<longleftrightarrow>
     is_destroyed (heap L r)
     \<or> (\<exists>k<length bs. bs ! k = r \<and> is_collided_with (ball (blocks_x (take k bs) L)) (heap L r))"
proof (induction bs rule: rev_induct)
  case Nil
  show ?case by simp
next
  case (snoc b bs)
  let ?M = "blocks_x bs L"
  have coll: "is_collided_with (ball ?M) (heap ?M b) = is_collided_with (ball ?M) (heap L b)"
    by (simp add: is_collided_with_def)
  have step: "is_destroyed (heap (blocks_x (bs @ [b]) L) r) \<longleftrightarrow>
      is_destroyed (heap ?M r) \<or> (r = b \<and> is_collided_with (ball ?M) (heap L b))"
    by (auto simp: blocks_x_append coll set_is_destroyed_def)
  have split: "(\<exists>k<length (bs @ [b]). (bs @ [b]) ! k = r
          \<and> is_collided_with (ball (blocks_x (take k (bs @ [b])) L)) (heap L r))
      \<longleftrightarrow> (\<exists>k<length bs. bs ! k = r \<and> is_collided_with (ball (blocks_x (take k bs) L)) (heap L r))
          \<or> (r = b \<and> is_collided_with (ball ?M) (heap L b))"
    (is "?A \<longleftrightarrow> ?B \<or> ?C")
  proof
    assume ?A
    then obtain k where k: "k < Suc (length bs)" "(bs @ [b]) ! k = r"
      "is_collided_with (ball (blocks_x (take k (bs @ [b])) L)) (heap L r)" by auto
    show "?B \<or> ?C"
    proof (cases "k < length bs")
      case True
      with k have "bs ! k = r" "is_collided_with (ball (blocks_x (take k bs) L)) (heap L r)"
        by (simp_all add: nth_append)
      with True show ?thesis by blast
    next
      case False
      with k(1) have "k = length bs" by simp
      with k show ?thesis by simp
    qed
  next
    assume "?B \<or> ?C"
    then show ?A
    proof
      assume ?B
      then obtain k where "k < length bs" "bs ! k = r"
        "is_collided_with (ball (blocks_x (take k bs) L)) (heap L r)" by blast
      then have "k < length (bs @ [b]) \<and> (bs @ [b]) ! k = r
          \<and> is_collided_with (ball (blocks_x (take k (bs @ [b])) L)) (heap L r)"
        by (simp add: nth_append)
      then show ?A by blast
    next
      assume ?C
      then have "length bs < length (bs @ [b]) \<and> (bs @ [b]) ! length bs = r
          \<and> is_collided_with (ball (blocks_x (take (length bs) (bs @ [b])) L)) (heap L r)"
        by simp
      then show ?A by blast
    qed
  qed
  from step snoc.IH split show ?case by blast
qed

lemma x_pass_blocks [simp]: "blocks (x_pass L) = blocks L"
  by (simp add: x_pass_def x_resolve_def x_move_def)

lemma x_pass_platform [simp]: "platform (x_pass L) = platform L"
  by (simp add: x_pass_def x_resolve_def x_move_def)

lemma x_pass_edges [simp]: "edges (x_pass L) = edges L"
  by (simp add: x_pass_def x_resolve_def x_move_def)

lemma x_pass_state [simp]: "state (x_pass L) = state L"
  by (simp add: x_pass_def x_resolve_def x_move_def)

lemma x_pass_flag: "is_destroyed (heap L r) \<Longrightarrow> is_destroyed (heap (x_pass L) r)"
  by (simp add: x_pass_def x_resolve_def x_move_def blocks_x_flag)

lemma x_pass_vec_y [simp]: "vec_y (speed (ball (x_pass L))) = vec_y (speed (ball L))"
  by (simp add: x_pass_def x_resolve_def x_move_def adjust_on_x_collision_def flip_x_def Let_def)

lemma x_pass_abs_vec_x [simp]: "\<bar>vec_x (speed (ball (x_pass L)))\<bar> = \<bar>vec_x (speed (ball L))\<bar>"
  by (simp add: x_pass_def x_resolve_def x_move_def adjust_on_x_collision_def flip_x_def Let_def)

subsection \<open>The Y pass\<close>

lemma blocks_y_blocks [simp]: "blocks (blocks_y bs L) = blocks L"
  by (induction bs arbitrary: L) auto

lemma blocks_y_platform [simp]: "platform (blocks_y bs L) = platform L"
  by (induction bs arbitrary: L) auto

lemma blocks_y_edges [simp]: "edges (blocks_y bs L) = edges L"
  by (induction bs arbitrary: L) auto

lemma blocks_y_state [simp]: "state (blocks_y bs L) = state L"
  by (induction bs arbitrary: L) auto

lemma blocks_y_flag: "is_destroyed (heap L r) \<Longrightarrow> is_destroyed (heap (blocks_y bs L) r)"
  by (induction bs arbitrary: L) (auto simp: set_is_destroyed_def)

lemma blocks_y_vec_x [simp]: "vec_x (speed (ball (blocks_y bs L))) = vec_x (speed (ball L))"
  by (induction bs arbitrary: L) (auto simp: adjust_on_y_collision_def)

lemma blocks_y_abs_vec_y [simp]:
  "\<bar>vec_y (speed (ball (blocks_y bs L)))\<bar> = \<bar>vec_y (speed (ball L))\<bar>"
  by (induction bs arbitrary: L) (auto simp: adjust_on_y_collision_def)

lemma y_pass_blocks [simp]: "blocks (y_pass L) = blocks L"
  by (simp add: y_pass_def y_resolve_def y_move_def lose_life_def reset_ball_def Let_def)

lemma y_pass_platform [simp]: "platform (y_pass L) = platform L"
  by (simp add: y_pass_def y_resolve_def y_move_def lose_life_def reset_ball_def Let_def)

lemma y_pass_edges [simp]: "edges (y_pass L) = edges L"
  by (simp add: y_pass_def y_resolve_def y_move_def lose_life_def reset_ball_def Let_def)

lemma y_pass_score [simp]: "score (state (y_pass L)) = score (state L)"
  by (simp add: y_pass_def y_resolve_def y_move_def lose_life_def reset_ball_def Let_def)

lemma y_pass_flag: "is_destroyed (heap L r) \<Longrightarrow> is_destroyed (heap (y_pass L) r)"
  by (simp add: y_pass_def y_resolve_def y_move_def lose_life_def reset_ball_def Let_def blocks_y_flag)

subsection \<open>Squeeze and platform clamp\<close>

lemma squeeze_fields [simp]:
  "blocks (squeeze L) = blocks L" "heap (squeeze L) = heap L" "platform (squeeze L) = platform L"
  "edges (squeeze L) = edges L" "state (squeeze L) = state L"
  "speed (ball (squeeze L)) = speed (ball L)"
  by (simp_all add: squeeze_def)

lemma clamp_fields [simp]:
  "blocks (platform_clamp L) = blocks L" "heap (platform_clamp L) = heap L"
  "ball (platform_clamp L) = ball L" "edges (platform_clamp L) = edges L"
  "state (platform_clamp L) = state L"
  "rect_y (rect (platform (platform_clamp L))) = rect_y (rect (platform L))"
  "rect_h (rect (platform (platform_clamp L))) = rect_h (rect (platform L))"
  "rect_w (rect (platform (platform_clamp L))) = rect_w (rect (platform L))"
  by (simp_all add: platform_clamp_def flip_x_def rect_defs)

lemma collisions_blocks [simp]: "blocks (process_collisions L) = blocks L"
  by (simp add: process_collisions_def)

lemma collisions_edges [simp]: "edges (process_collisions L) = edges L"
  by (simp add: process_collisions_def)

lemma collisions_score [simp]: "score (state (process_collisions L)) = score (state L)"
  by (simp add: process_collisions_def)

lemma collisions_flag: "is_destroyed (heap L r) \<Longrightarrow> is_destroyed (heap (process_collisions L) r)"
  by (simp add: process_collisions_def x_pass_flag y_pass_flag)

subsection \<open>Cleanup\<close>

lemma remove_block_fields [simp]:
  "heap (remove_block b L) = heap L" "platform (remove_block b L) = platform L"
  "edges (remove_block b L) = edges L" "rect (ball (remove_block b L)) = rect (ball L)"
  "lifes (state (remove_block b L)) = lifes (state L)"
  "is_ball_released (state (remove_block b L)) = is_ball_released (state L)"
  "is_game_over (state (remove_block b L)) = is_game_over (state L)"
  "is_player_won (state (remove_block b L)) = is_player_won (state L)"
  "blocks (remove_block b L) = remove1 b (blocks L)"
  "score (state (remove_block b L)) = score (state L) + 100"
  by (simp_all add: remove_block_def speed_up_def)

lemma cleanup_heap [simp]: "heap (cleanup i L) = heap L"
proof (induction i L rule: cleanup.induct)
  case (1 i L)
  then show ?case by (subst cleanup.simps) simp
qed

lemma cleanup_platform [simp]: "platform (cleanup i L) = platform L"
proof (induction i L rule: cleanup.induct)
  case (1 i L)
  then show ?case by (subst cleanup.simps) simp
qed

lemma cleanup_edges [simp]: "edges (cleanup i L) = edges L"
proof (induction i L rule: cleanup.induct)
  case (1 i L)
  then show ?case by (subst cleanup.simps) simp
qed

lemma cleanup_ball_rect [simp]: "rect (ball (cleanup i L)) = rect (ball L)"
proof (induction i L rule: cleanup.induct)
  case (1 i L)
  then show ?case by (subst cleanup.simps) simp
qed

lemma cleanup_lifes [simp]: "lifes (state (cleanup i L)) = lifes (state L)"
proof (induction i L rule: cleanup.induct)
  case (1 i L)
  then show ?case by (subst cleanup.simps) simp
qed

lemma cleanup_released [simp]: "is_ball_released (state (cleanup i L)) = is_ball_released (state L)"
proof (induction i L rule: cleanup.induct)
  case (1 i L)
  then show ?case by (subst cleanup.simps) simp
qed

lemma cleanup_game_over [simp]: "is_game_over (state (cleanup i L)) = is_game_over (state L)"
proof (induction i L rule: cleanup.induct)
  case (1 i L)
  then show ?case by (subst cleanup.simps) simp
qed

lemma cleanup_subset: "set (blocks (cleanup i L)) \<subseteq> set (blocks L)"
proof (induction i L rule: cleanup.induct)
  case (1 i L)
  show ?case
  proof (cases "i < length (blocks L)")
    case False
    then show ?thesis by (subst cleanup.simps) simp
  next
    case True
    show ?thesis
    proof (cases "is_destroyed (heap L (blocks L ! i))")
      case True
      from "1.IH"(1) [OF \<open>i < length (blocks L)\<close> True]
      have "set (blocks (cleanup (Suc i) (remove_block (blocks L ! i) L))) \<subseteq> set (blocks L)"
        using set_remove1_subset by fastforce
      with True \<open>i < length (blocks L)\<close> show ?thesis by (subst cleanup.simps) simp
    next
      case False
      with "1.IH"(2) \<open>i < length (blocks L)\<close> show ?thesis by (subst cleanup.simps) simp
    qed
  qed
qed

lemma cleanup_length: "length (blocks (cleanup i L)) \<le> length (blocks L)"
proof (induction i L rule: cleanup.induct)
  case (1 i L)
  show ?case
  proof (cases "i < length (blocks L) \<and> is_destroyed (heap L (blocks L ! i))")
    case True
    then have "length (blocks (cleanup (Suc i) (remove_block (blocks L ! i) L)))
        \<le> length (remove1 (blocks L ! i) (blocks L))"
      using "1.IH"(1) by simp
    also have "\<dots> \<le> length (blocks L)" by (simp add: length_remove1)
    finally show ?thesis using True by (subst cleanup.simps) simp
  next
    case False
    with "1.IH"(2) show ?thesis by (subst cleanup.simps) auto
  qed
qed

lemma cleanup_score:
  "score (state (cleanup i L))
     = score (state L) + 100 * (int (length (blocks L)) - int (length (blocks (cleanup i L))))"
proof (induction i L rule: cleanup.induct)
  case (1 i L)
  show ?case
  proof (cases "i < length (blocks L) \<and> is_destroyed (heap L (blocks L ! i))")
    case True
    then have mem: "blocks L ! i \<in> set (blocks L)" by simp
    then have len: "int (length (remove1 (blocks L ! i) (blocks L))) = int (length (blocks L)) - 1"
      using True by (simp add: length_remove1 of_nat_diff Suc_leI)
    from True "1.IH"(1) len show ?thesis
      by (subst cleanup.simps, subst (3) cleanup.simps) simp
  next
    case False
    with "1.IH"(2) show ?thesis
      by (subst cleanup.simps, subst (3) cleanup.simps) auto
  qed
qed

lemma cleanup_same_length_speed:
  "length (blocks (cleanup i L)) = length (blocks L) \<Longrightarrow> speed (ball (cleanup i L)) = speed (ball L)"
proof (induction i L rule: cleanup.induct)
  case (1 i L)
  show ?case
  proof (cases "i < length (blocks L) \<and> is_destroyed (heap L (blocks L ! i))")
    case True
    let ?L' = "remove_block (blocks L ! i) L"
    have "length (blocks (cleanup (Suc i) ?L')) \<le> length (blocks ?L')" by (rule cleanup_length)
    also have "\<dots> < length (blocks L)"
    proof -
      from True have "blocks L ! i \<in> set (blocks L)" and "0 < length (blocks L)" by auto
      then show ?thesis by (simp add: length_remove1)
    qed
    finally have "length (blocks (cleanup i L)) < length (blocks L)"
      using True by (subst cleanup.simps) simp
    with "1.prems" show ?thesis by simp
  next
    case False
    show ?thesis
    proof (cases "i < length (blocks L)")
      case True
      with False have nd: "\<not> is_destroyed (heap L (blocks L ! i))" by simp
      have eq: "cleanup i L = cleanup (Suc i) L"
        using True nd by (subst cleanup.simps) simp
      with "1.IH"(2) [OF True nd] "1.prems" show ?thesis by simp
    next
      case False
      then show ?thesis by (subst cleanup.simps) simp
    qed
  qed
qed

lemma cleanup_zero_speed:
  "speed (ball L) = \<lparr>vec_x = 0, vec_y = 0\<rparr> \<Longrightarrow> speed (ball (cleanup i L)) = \<lparr>vec_x = 0, vec_y = 0\<rparr>"
proof (induction i L rule: cleanup.induct)
  case (1 i L)
  show ?case
  proof (cases "i < length (blocks L) \<and> is_destroyed (heap L (blocks L ! i))")
    case True
    have "speed (ball (remove_block (blocks L ! i) L)) = \<lparr>vec_x = 0, vec_y = 0\<rparr>"
      using "1.prems" by (simp add: remove_block_def speed_up_def)
    with True "1.IH"(1) show ?thesis by (subst cleanup.simps) simp
  next
    case False
    with "1.IH"(2) "1.prems" show ?thesis by (subst cleanup.simps) auto
  qed
qed

lemma cleanup_distinct: "distinct (blocks L) \<Longrightarrow> distinct (blocks (cleanup i L))"
proof (induction i L rule: cleanup.induct)
  case (1 i L)
  show ?case
  proof (cases "i < length (blocks L) \<and> is_destroyed (heap L (blocks L ! i))")
    case True
    with "1.IH"(1) "1.prems" show ?thesis by (subst cleanup.simps) simp
  next
    case False
    with "1.IH"(2) "1.prems" show ?thesis by (subst cleanup.simps) auto
  qed
qed

lemma remove1_nth_distinct:
  "distinct xs \<Longrightarrow> i < length xs \<Longrightarrow> remove1 (xs ! i) xs = take i xs @ drop (Suc i) xs"
proof (induction xs arbitrary: i)
  case Nil
  then show ?case by simp
next
  case (Cons x xs)
  show ?case
  proof (cases i)
    case 0
    then show ?thesis by simp
  next
    case (Suc j)
    with Cons.prems have "xs ! j \<noteq> x" by auto
    with Suc Cons show ?thesis by simp
  qed
qed

lemma cleanup_prefix:
  "distinct (blocks L) \<Longrightarrow> take i (blocks (cleanup i L)) = take i (blocks L)"
proof (induction i L rule: cleanup.induct)
  case (1 i L)
  show ?case
  proof (cases "i < length (blocks L)")
    case False
    then show ?thesis by (subst cleanup.simps) simp
  next
    case len: True
    show ?thesis
    proof (cases "is_destroyed (heap L (blocks L ! i))")
      case True
      let ?L' = "remove_block (blocks L ! i) L"
      have b': "blocks ?L' = take i (blocks L) @ drop (Suc i) (blocks L)"
        using "1.prems" len by (simp add: remove1_nth_distinct)
      have d': "distinct (blocks ?L')" using "1.prems" by simp
      from "1.IH"(1) [OF len True d']
      have "take (Suc i) (blocks (cleanup (Suc i) ?L')) = take (Suc i) (blocks ?L')" .
      then have "take i (take (Suc i) (blocks (cleanup (Suc i) ?L'))) = take i (take (Suc i) (blocks ?L'))"
        by simp
      then have "take i (blocks (cleanup (Suc i) ?L')) = take i (blocks ?L')"
        by (simp add: min_def)
      also have "\<dots> = take i (blocks L)" unfolding b' using len by simp
      finally show ?thesis using len True by (subst cleanup.simps) simp
    next
      case False
      from "1.IH"(2) [OF len False "1.prems"]
      have "take i (take (Suc i) (blocks (cleanup (Suc i) L))) = take i (take (Suc i) (blocks L))"
        by simp
      then have "take i (blocks (cleanup (Suc i) L)) = take i (blocks L)" by (simp add: min_def)
      then show ?thesis using len False by (subst cleanup.simps) simp
    qed
  qed
qed

lemma cleanup_progress:
  "distinct (blocks L) \<Longrightarrow> i \<le> p \<Longrightarrow> p < length (blocks L) \<Longrightarrow>
   is_destroyed (heap L (blocks L ! p)) \<Longrightarrow>
   blocks L ! p \<notin> set (blocks (cleanup i L))
   \<or> (\<exists>q<p. q < length (blocks (cleanup i L)) \<and> blocks (cleanup i L) ! q = blocks L ! p)"
proof (induction i L arbitrary: p rule: cleanup.induct)
  case (1 i L)
  let ?xs = "blocks L"
  let ?r = "?xs ! p"
  from "1.prems" have len: "i < length ?xs" by simp
  show ?case
  proof (cases "is_destroyed (heap L (?xs ! i))")
    case False
    with "1.prems" have "p \<noteq> i" by auto
    with "1.prems" have "Suc i \<le> p" by simp
    from "1.IH"(2) [OF len False "1.prems"(1) this "1.prems"(3,4)]
    show ?thesis using len False by (subst (1 2 3) cleanup.simps) simp
  next
    case True
    let ?L' = "remove_block (?xs ! i) L"
    have step: "cleanup i L = cleanup (Suc i) ?L'"
      using len True by (subst cleanup.simps) simp
    have b': "blocks ?L' = take i ?xs @ drop (Suc i) ?xs"
      using "1.prems"(1) len by (simp add: remove1_nth_distinct)
    have d': "distinct (blocks ?L')" using "1.prems"(1) by simp
    show ?thesis
    proof (cases "p = i")
      case True
      have "?r \<notin> set (blocks ?L')" using "1.prems"(1) True by simp
      with cleanup_subset [of "Suc i" ?L'] have "?r \<notin> set (blocks (cleanup (Suc i) ?L'))"
        by blast
      then show ?thesis unfolding step by blast
    next
      case False
      with "1.prems" have ip: "i < p" by simp
      have at: "blocks ?L' ! (p - 1) = ?r"
      proof -
        from ip have ge: "\<not> p - 1 < i" by simp
        have "(take i ?xs @ drop (Suc i) ?xs) ! (p - 1) = drop (Suc i) ?xs ! (p - 1 - i)"
          using ge len by (simp add: nth_append)
        also have "\<dots> = ?xs ! (Suc i + (p - 1 - i))"
          using "1.prems"(3) ip by (intro nth_drop) simp
        also have "Suc i + (p - 1 - i) = p" using ip by simp
        finally show ?thesis unfolding b' .
      qed
      have pl: "p - 1 < length (blocks ?L')"
        unfolding b' using ip "1.prems"(3) len by simp
      have fl: "is_destroyed (heap ?L' (blocks ?L' ! (p - 1)))"
        using at "1.prems"(4) by simp
      show ?thesis
      proof (cases "Suc i \<le> p - 1")
        case True
        from "1.IH"(1) [OF len \<open>is_destroyed (heap L (?xs ! i))\<close> d' True pl fl]
        have "?r \<notin> set (blocks (cleanup (Suc i) ?L'))
            \<or> (\<exists>q<p - 1. q < length (blocks (cleanup (Suc i) ?L'))
                  \<and> blocks (cleanup (Suc i) ?L') ! q = ?r)"
          unfolding at .
        then have "?r \<notin> set (blocks (cleanup (Suc i) ?L'))
            \<or> (\<exists>q<p. q < length (blocks (cleanup (Suc i) ?L'))
                  \<and> blocks (cleanup (Suc i) ?L') ! q = ?r)"
        proof
          assume "?r \<notin> set (blocks (cleanup (Suc i) ?L'))"
          then show ?thesis by blast
        next
          assume "\<exists>q<p - 1. q < length (blocks (cleanup (Suc i) ?L'))
                  \<and> blocks (cleanup (Suc i) ?L') ! q = ?r"
          then obtain q where "q < p - 1" "q < length (blocks (cleanup (Suc i) ?L'))"
            "blocks (cleanup (Suc i) ?L') ! q = ?r" by blast
          moreover from this have "q < p" by simp
          ultimately show ?thesis by blast
        qed
        then show ?thesis unfolding step .
      next
        case False
        with ip have pi: "p - 1 = i" by simp
        let ?ys = "blocks (cleanup (Suc i) ?L')"
        have pre: "take (Suc i) ?ys = take (Suc i) (blocks ?L')"
          by (rule cleanup_prefix [OF d'])
        have "length (take (Suc i) ?ys) = Suc i"
          unfolding pre using pl pi by simp
        then have ly: "i < length ?ys" by simp
        have "?ys ! i = take (Suc i) ?ys ! i" by simp
        also have "\<dots> = blocks ?L' ! i" unfolding pre by simp
        also have "\<dots> = ?r" using at pi by simp
        finally have "?ys ! i = ?r" .
        with ly ip have "\<exists>q<p. q < length ?ys \<and> ?ys ! q = ?r" by blast
        then show ?thesis unfolding step by blast
      qed
    qed
  qed
qed

subsection \<open>The whole tick\<close>

lemma finish_fields [simp]:
  "blocks (finish L) = blocks L" "heap (finish L) = heap L" "ball (finish L) = ball L"
  "platform (finish L) = platform L" "edges (finish L) = edges L"
  "score (state (finish L)) = score (state L)" "lifes (state (finish L)) = lifes (state L)"
  "is_ball_released (state (finish L)) = is_ball_released (state L)"
  by (simp_all add: finish_def)

lemma update_flag: "is_destroyed (heap L r) \<Longrightarrow> is_destroyed (heap (update keys L) r)"
  by (simp add: update_def collisions_flag)

lemma update_subset: "set (blocks (update keys L)) \<subseteq> set (blocks L)"
  using cleanup_subset [of 0 "process_collisions (process_key_presses keys L)"]
  by (simp add: update_def)

lemma update_distinct: "distinct (blocks L) \<Longrightarrow> distinct (blocks (update keys L))"
  by (simp add: update_def cleanup_distinct)

lemma update_score:
  "score (state (update keys L))
     = score (state L) + 100 * (int (length (blocks L)) - int (length (blocks (update keys L))))"
  using cleanup_score [of 0 "process_collisions (process_key_presses keys L)"]
  by (simp add: update_def)

lemma update_length: "length (blocks (update keys L)) \<le> length (blocks L)"
  using cleanup_length [of 0 "process_collisions (process_key_presses keys L)"]
  by (simp add: update_def)

lemma update_progress:
  assumes "distinct (blocks L)" "p < length (blocks L)" "is_destroyed (heap L (blocks L ! p))"
  shows "blocks L ! p \<notin> set (blocks (update keys L))
     \<or> (\<exists>q<p. q < length (blocks (update keys L)) \<and> blocks (update keys L) ! q = blocks L ! p)"
proof -
  let ?C = "process_collisions (process_key_presses keys L)"
  have "is_destroyed (heap ?C (blocks L ! p))"
    using assms(3) by (simp add: collisions_flag)
  with cleanup_progress [of ?C 0 p] assms(1,2) show ?thesis
    by (simp add: update_def)
qed

lemma ticks_flag: "is_destroyed (heap L r) \<Longrightarrow> is_destroyed (heap (fold update ks L) r)"
  by (induction ks arbitrary: L) (simp_all add: update_flag)

lemma ticks_subset: "set (blocks (fold update ks L)) \<subseteq> set (blocks L)"
proof (induction ks arbitrary: L)
  case Nil
  show ?case by simp
next
  case (Cons k ks)
  from Cons [of "update k L"] update_subset [of k L] show ?case by auto
qed

lemma ticks_score:
  "score (state (fold update ks L))
     = score (state L) + 100 * (int (length (blocks L)) - int (length (blocks (fold update ks L))))"
proof (induction ks arbitrary: L)
  case Nil
  show ?case by simp
next
  case (Cons k ks)
  from Cons [of "update k L"] update_score [of k L] show ?case by simp
qed

lemma ticks_remove:
  "distinct (blocks L) \<Longrightarrow> p < length (blocks L) \<Longrightarrow> is_destroyed (heap L (blocks L ! p)) \<Longrightarrow>
   p < length ks \<Longrightarrow> blocks L ! p \<notin> set (blocks (fold update ks L))"
proof (induction ks arbitrary: L p)
  case Nil
  then show ?case by simp
next
  case (Cons k ks)
  let ?U = "update k L"
  let ?r = "blocks L ! p"
  from update_progress [OF Cons.prems(1,2,3), of k]
  show ?case
  proof
    assume "?r \<notin> set (blocks ?U)"
    with ticks_subset [of ks ?U] show ?thesis by auto
  next
    assume "\<exists>q<p. q < length (blocks ?U) \<and> blocks ?U ! q = ?r"
    then obtain q where q: "q < p" "q < length (blocks ?U)" "blocks ?U ! q = ?r" by blast
    have "is_destroyed (heap ?U (blocks ?U ! q))"
      using q(3) Cons.prems(3) by (simp add: update_flag)
    moreover have "q < length ks" using q(1) Cons.prems(4) by simp
    ultimately have "blocks ?U ! q \<notin> set (blocks (fold update ks ?U))"
      using Cons.IH [OF update_distinct [OF Cons.prems(1)] q(2)] by blast
    with q(3) show ?thesis by simp
  qed
qed

subsection \<open>Life loss, squeeze and clamp within a tick\<close>

lemma y_pass_speed_kept:
  assumes "lifes (state (y_pass L)) = lifes (state L)"
  shows "vec_x (speed (ball (y_pass L))) = vec_x (speed (ball L))
     \<and> \<bar>vec_y (speed (ball (y_pass L)))\<bar> = \<bar>vec_y (speed (ball L))\<bar>"
proof -
  let ?M = "y_move L"
  have m: "speed (ball ?M) = speed (ball L)" "state ?M = state L" by (simp_all add: y_move_def)
  show ?thesis
  proof (cases "\<not> is_collided_with (ball ?M) (platform ?M)
                 \<and> rect_bottom (rect (ball ?M)) > rect_bottom (edges ?M)")
    case True
    then have "lifes (state (y_pass L)) = lifes (state L) - 1"
      by (simp add: y_pass_def y_resolve_def lose_life_def reset_ball_def Let_def m)
    with assms show ?thesis by simp
  next
    case False
    then show ?thesis
      by (auto simp: y_pass_def y_resolve_def adjust_on_y_collision_def flip_y_def m)
  qed
qed

lemma collisions_lifes: "lifes (state (process_collisions L)) = lifes (state (y_pass (x_pass L)))"
  by (simp add: process_collisions_def)

lemma collisions_speed: "speed (ball (process_collisions L)) = speed (ball (y_pass (x_pass L)))"
  by (simp add: process_collisions_def)

lemma y_pass_life_lost:
  assumes "\<not> is_collided_with (ball (y_move L)) (platform (y_move L))"
    and "rect_bottom (rect (ball (y_move L))) > rect_bottom (edges (y_move L))"
  shows "y_pass L = lose_life (y_move L)"
  using assms by (simp add: y_pass_def y_resolve_def)

lemma lose_life_fields:
  "lifes (state (lose_life L)) = lifes (state L) - 1"
  "\<not> is_ball_released (state (lose_life L))"
  "speed (ball (lose_life L)) = \<lparr>vec_x = 0, vec_y = 0\<rparr>"
  "rect_bottom (rect (ball (lose_life L))) = rect_top (rect (platform L))"
  "rect_centerx (rect (ball (lose_life L))) = rect_centerx (rect (platform L))"
  "platform (lose_life L) = platform L"
  "edges (lose_life L) = edges L"
  by (simp_all add: lose_life_def reset_ball_def Let_def rect_defs)

lemma squeeze_centerx [simp]: "rect_centerx (rect (ball (squeeze L))) = rect_centerx (rect (ball L))"
  by (simp add: squeeze_def rect_defs)

lemma squeeze_idle: "\<not> is_squeezing_on_x L \<Longrightarrow> squeeze L = L"
  by (simp add: squeeze_def)

lemma clamp_top [simp]: "rect_top (rect (platform (platform_clamp L))) = rect_top (rect (platform L))"
  by (simp add: rect_top_def)

lemma clamp_idle:
  "rect_left (edges L) \<le> rect_left (rect (platform L)) \<Longrightarrow>
   rect_right (rect (platform L)) \<le> rect_right (edges L) \<Longrightarrow> platform_clamp L = L"
  by (simp add: platform_clamp_def)

lemma update_ball_rect: "rect (ball (update keys L))
    = rect (ball (squeeze (y_pass (x_pass (process_key_presses keys L)))))"
  by (simp add: update_def process_collisions_def)

lemma update_platform: "platform (update keys L)
    = platform (platform_clamp (squeeze (y_pass (x_pass (process_key_presses keys L)))))"
  by (simp add: update_def process_collisions_def)

subsection \<open>The first ticks on a narrow board\<close>

text \<open>
  \<^verbatim>\<open>Game(Edges(400, 500), 10, 11)\<close> has a margin of 12 between the blocks, less than the
  width 15 of the ball, and its rows reach down to the paddle: the ball, tied to the paddle,
  starts inside block 95 and next to block 96. The two lemmas evaluate the X pass of the
  first tick and the first two ticks, with no key held.
\<close>

lemma x_move_fields [simp]:
  "blocks (x_move L) = blocks L" "heap (x_move L) = heap L" "platform (x_move L) = platform L"
  "edges (x_move L) = edges L" "state (x_move L) = state L"
  "speed (ball (x_move L)) = speed (ball L)"
  by (simp_all add: x_move_def)

lemma narrow_x_pass:
  "(let X = x_pass (process_key_presses no_keys (fresh_level narrow_maker))
    in (is_destroyed (heap (fresh_level narrow_maker) 95),
        is_destroyed (heap (fresh_level narrow_maker) 96),
        is_destroyed (heap X 95), is_destroyed (heap X 96)))
   = (False, False, True, True)"
  by code_simp

lemma narrow_two_ticks:
  "(let U = update no_keys (fresh_level narrow_maker); V = update no_keys U
    in (is_destroyed (heap U 95), is_destroyed (heap U 96), blocks U ! 95, length (blocks U), score (state U),
        filter (\<lambda>r. r = 95 \<or> r = 96) (blocks U),
        filter (\<lambda>r. r = 95 \<or> r = 96) (blocks V), score (state V)))
   = (True, True, 96, 109, 100, [96], [], 200)"
  by code_simp

section \<open>The game loop stops updating a lost level\<close>

lemma tick_game_over: "is_game_over (state (level st)) \<Longrightarrow> tick keys st = st"
  by (simp add: tick_def)

lemma handle_events_no_reset:
  "KEYDOWN K_DELETE \<notin> set evs \<Longrightarrow>
   \<exists>st'. handle_events mk evs st = Some st' \<and> level st' = level st"
proof (induction evs arbitrary: st)
  case Nil
  then show ?case by simp
next
  case (Cons ev evs)
  have "\<exists>st1. handle_event mk ev st = Some st1 \<and> level st1 = level st"
  proof (cases ev)
    case (KEYDOWN k)
    with Cons.prems show ?thesis by (cases k) auto
  qed auto
  then obtain st1 where st1: "handle_event mk ev st = Some st1" "level st1 = level st"
    by blast
  from Cons.prems have "KEYDOWN K_DELETE \<notin> set evs" by simp
  from Cons.IH [OF this, of st1] st1 show ?case by auto
qed

lemma frame_game_over:
  assumes "is_game_over (state (level st))" and "KEYDOWN K_DELETE \<notin> set (fst inp)"
  shows "\<exists>st'. frame mk inp st = Some st' \<and> level st' = level st"
proof -
  from handle_events_no_reset [OF assms(2), of mk st]
  obtain st1 where st1: "handle_events mk (fst inp) st = Some st1" "level st1 = level st"
    by blast
  with assms(1) have "tick (snd inp) st1 = st1" by (simp add: tick_game_over)
  with st1 show ?thesis by (simp add: frame_def)
qed

text \<open>
  Claim C7. Once \<open>is_game_over\<close> is set on the level that the loop of \<^verbatim>\<open>Game.run\<close> holds,
  no later round of the loop changes that level: its score, its lives, its list of blocks
  and the blocks themselves stay as they are, whatever keys are held and whatever events
  arrive. The only thing that ends this is the DELETE key, which does not change the
  level but throws it away and has the factory build a new one; so the rounds considered
  are those without that key. (The guard sits in \<^verbatim>\<open>Game.run\<close>; \<^verbatim>\<open>Level.update\<close> itself
  does not look at \<open>is_game_over\<close>.)
\<close>

theorem game_over_freezes_level:
  assumes "is_game_over (state (level st))"
    and "\<forall>inp \<in> set inps. KEYDOWN K_DELETE \<notin> set (fst inp)"
  shows "\<exists>st'. run_frames mk inps st = Some st' \<and> level st' = level st"
  using assms
proof (induction inps arbitrary: st)
  case Nil
  then show ?case by simp
next
  case (Cons inp inps)
  show ?case
  proof (cases "running st")
    case False
    then show ?thesis by simp
  next
    case True
    from Cons.prems have "KEYDOWN K_DELETE \<notin> set (fst inp)" by simp
    from frame_game_over [OF Cons.prems(1) this, of mk]
    obtain st1 where st1: "frame mk inp st = Some st1" "level st1 = level st" by blast
    with Cons.prems have "is_game_over (state (level st1))"
      and "\<forall>i \<in> set inps. KEYDOWN K_DELETE \<notin> set (fst i)" by simp_all
    from Cons.IH [OF this] st1 True show ?thesis by auto
  qed
qed

theorem game_over_freezes_level_witness:
  "is_game_over (state (level lost_run))
   \<and> KEYDOWN K_DELETE \<notin> set [KEYDOWN K_SPACE, OtherEvent]
   \<and> (\<exists>st'. run_frames scenario_A_maker
               [([KEYDOWN K_SPACE, OtherEvent], no_keys\<lparr>key_d := True\<rparr>), ([], no_keys\<lparr>key_ctrl := True\<rparr>)]
               lost_run = Some st'
             \<and> level st' = level lost_run)"
proof -
  have over: "is_game_over (state (level lost_run))"
    by (simp add: lost_run_def lost_level_def)
  have quiet: "\<forall>inp \<in> set [([KEYDOWN K_SPACE, OtherEvent], no_keys\<lparr>key_d := True\<rparr>),
                             ([], no_keys\<lparr>key_ctrl := True\<rparr>)].
                 KEYDOWN K_DELETE \<notin> set (fst inp)"
    by simp
  from game_over_freezes_level [OF over quiet, of scenario_A_maker] over
  show ?thesis by simp
qed

section \<open>The destroyed flag\<close>

text \<open>
  Claim C10. Once the flag \<open>is_destroyed\<close> of a block is set, no operation of the
  simulation clears it: not the key processing, the collision passes, the cleanup loop,
  \<^verbatim>\<open>reset_ball\<close>, \<^verbatim>\<open>release_ball\<close>, a whole tick or any number of ticks. A flagged block
  that a cleanup has skipped stays flagged, and further ticks remove it: a flagged block at
  position \<open>p\<close> of the list (of distinct objects, as the factory builds it) is gone
  after \<open>p + 1\<close> more calls of \<^verbatim>\<open>Level.update\<close>, whatever the keys, and the score has
  then grown by 100 for every block removed. (A tick is a call of \<^verbatim>\<open>Level.update\<close>;
  \<^verbatim>\<open>Game.run\<close> makes no such call while the game is over, won or paused.)
\<close>

theorem destroyed_flag_is_monotone:
  assumes "is_destroyed (heap L r)"
  shows "is_destroyed (heap (process_key_presses keys L) r)
     \<and> is_destroyed (heap (process_collisions L) r)
     \<and> is_destroyed (heap (cleanup i L) r)
     \<and> is_destroyed (heap (reset_ball L) r)
     \<and> is_destroyed (heap (release_ball L) r)
     \<and> is_destroyed (heap (update keys L) r)
     \<and> is_destroyed (heap (fold update ks L) r)
     \<and> (distinct (blocks L) \<and> p < length (blocks L) \<and> blocks L ! p = r \<and> p < length ks
          \<longrightarrow> r \<notin> set (blocks (fold update ks L)))
     \<and> score (state (fold update ks L))
          = score (state L) + 100 * (int (length (blocks L)) - int (length (blocks (fold update ks L))))"
proof -
  have "distinct (blocks L) \<and> p < length (blocks L) \<and> blocks L ! p = r \<and> p < length ks
          \<longrightarrow> r \<notin> set (blocks (fold update ks L))"
    using ticks_remove [of L p ks] assms by auto
  with assms show ?thesis
    by (simp add: collisions_flag update_flag ticks_flag ticks_score reset_ball_def
        release_ball_def Let_def)
qed

theorem destroyed_flag_is_monotone_witness:
  "is_destroyed (heap leftover_level 1)
   \<and> distinct (blocks leftover_level)
   \<and> blocks leftover_level ! 1 = 1
   \<and> is_destroyed (heap (update no_keys leftover_level) 1)
   \<and> 1 \<notin> set (blocks (fold update [no_keys, no_keys] leftover_level))"
proof -
  have flagged: "is_destroyed (heap leftover_level 1)"
    by (simp add: leftover_level_def set_is_destroyed_def)
  have listed: "distinct (blocks leftover_level) \<and> 1 < length (blocks leftover_level)
      \<and> blocks leftover_level ! 1 = 1 \<and> (1::nat) < length [no_keys, no_keys]"
    by (simp add: leftover_level_def)
  from destroyed_flag_is_monotone [OF flagged, of no_keys 0 "[no_keys, no_keys]" 1] flagged listed
  show ?thesis by simp
qed

section \<open>The factory accepts malformed input\<close>




section \<open>Scenario A\<close>

text \<open>
  Claim C9, as amended. For the board 700 x 500 with 10 columns and 5 rows,
  \<^verbatim>\<open>Game.__init__\<close> derives the margin 21 and the block width 45, and \<^verbatim>\<open>get_level\<close>
  returns a level with exactly 50 blocks: 10 in each of the 5 rows. The 10 is the number of
  positions \<open>x = margin + k * (block_width + margin)\<close> with \<open>x + block_width < 700\<close>, that
  is \<open>ceiling ((700 - margin - block_width) / (block_width + margin))\<close>. No block of the
  new level is flagged destroyed, and the level has 4 lives.
\<close>

theorem scenario_A_block_count:
  "Game_init \<lparr>width = 700, height = 500\<rparr> 10 5
     = Inr \<lparr>game_edges = \<lparr>width = 700, height = 500\<rparr>,
            game_images = \<lparr>platform_image = (65, 20), ball_image = (15, 15), block_image = (45, 20)\<rparr>,
            level_maker = scenario_A_maker\<rparr>
   \<and> horizontal_margin scenario_A_maker = 21
   \<and> fst (block_image (images scenario_A_maker)) = 45
   \<and> get_level scenario_A_maker = Some (fresh_level scenario_A_maker)
   \<and> length (blocks (fresh_level scenario_A_maker)) = 50
   \<and> length (blocks (fresh_level scenario_A_maker))
       = nat \<lceil>(700 - 21 - 45) / (45 + 21 :: rat)\<rceil> * 5
   \<and> distinct (blocks (fresh_level scenario_A_maker))
   \<and> filter (\<lambda>r. is_destroyed (heap (fresh_level scenario_A_maker) r))
        (blocks (fresh_level scenario_A_maker)) = []
   \<and> lifes (state (fresh_level scenario_A_maker)) = 4"
proof -
  have "Game_init \<lparr>width = 700, height = 500\<rparr> 10 5
     = Inr \<lparr>game_edges = \<lparr>width = 700, height = 500\<rparr>,
            game_images = \<lparr>platform_image = (65, 20), ball_image = (15, 15), block_image = (45, 20)\<rparr>,
            level_maker = scenario_A_maker\<rparr>"
    by code_simp
  moreover have "horizontal_margin scenario_A_maker = 21"
    and "fst (block_image (images scenario_A_maker)) = 45"
    by (simp_all add: scenario_A_maker_def)
  moreover have "get_level scenario_A_maker = Some (fresh_level scenario_A_maker)"
    by (rule get_level_closed) (simp add: scenario_A_maker_def)
  moreover have "length (blocks (fresh_level scenario_A_maker)) = 50"
    by code_simp
  moreover have "length (blocks (fresh_level scenario_A_maker))
       = nat \<lceil>(700 - 21 - 45) / (45 + 21 :: rat)\<rceil> * 5"
    by code_simp
  moreover have "distinct (blocks (fresh_level scenario_A_maker))"
    by (simp add: fresh_level_blocks)
  moreover have "filter (\<lambda>r. is_destroyed (heap (fresh_level scenario_A_maker) r))
        (blocks (fresh_level scenario_A_maker)) = []"
    by code_simp
  moreover have "lifes (state (fresh_level scenario_A_maker)) = 4"
    by (rule fresh_level_lifes)
  ultimately show ?thesis by blast
qed

text \<open>
  The claim as stated fails: the formula of the specification,
  \<open>floor ((700 - 2 * margin) / (block_width + margin))\<close>, gives 9 columns and so 45 blocks,
  and the factory produces 50.
\<close>

theorem scenario_A_count_counterexample:
  "map_option (\<lambda>L. int (length (blocks L))) (get_level scenario_A_maker) = Some 50
   \<and> spec_columns_fit_per_row scenario_A_maker * 5 = 45"
  by code_simp

section \<open>Resolution on the X axis\<close>

text \<open>
  Claim C5, as amended. \<^verbatim>\<open>adjust_on_x_collision\<close> looks at the mover's right edge only: if
  that edge lies strictly inside the obstacle's horizontal span, the mover's right edge is
  put on the obstacle's left edge, whether or not the mover's left edge is inside the span
  too; otherwise the mover's left edge is put on the obstacle's right edge. In both cases
  the X speed is negated, and the Y speed, the vertical position and the size stay. The
  code agrees with the wording of the specification whenever the mover's left edge is not
  inside the obstacle's span. Scenario B holds: a ball with speed \<open>(2, -2)\<close> whose right
  edge alone is inside the paddle's span ends with X speed \<open>-2\<close> and its right edge on
  the paddle's left edge.
\<close>

theorem adjust_on_x_collision_snaps:
  "(rect_left (rect e) < rect_right (rect m) \<and> rect_right (rect m) < rect_right (rect e)
      \<longrightarrow> rect_right (rect (adjust_on_x_collision m e)) = rect_left (rect e))
   \<and> (\<not> (rect_left (rect e) < rect_right (rect m) \<and> rect_right (rect m) < rect_right (rect e))
      \<longrightarrow> rect_left (rect (adjust_on_x_collision m e)) = rect_right (rect e))
   \<and> vec_x (speed (adjust_on_x_collision m e)) = - vec_x (speed m)
   \<and> vec_y (speed (adjust_on_x_collision m e)) = vec_y (speed m)
   \<and> rect_y (rect (adjust_on_x_collision m e)) = rect_y (rect m)
   \<and> rect_w (rect (adjust_on_x_collision m e)) = rect_w (rect m)
   \<and> rect_h (rect (adjust_on_x_collision m e)) = rect_h (rect m)
   \<and> (\<not> (rect_left (rect e) < rect_left (rect m) \<and> rect_left (rect m) < rect_right (rect e))
      \<longrightarrow> adjust_on_x_collision m e = resolveAxisX_spec m e)
   \<and> (speed m = \<lparr>vec_x = 2, vec_y = - 2\<rparr>
       \<and> rect_left (rect m) \<le> rect_left (rect e)
       \<and> rect_left (rect e) < rect_right (rect m) \<and> rect_right (rect m) < rect_right (rect e)
      \<longrightarrow> vec_x (speed (adjust_on_x_collision m e)) = - 2
          \<and> rect_right (rect (adjust_on_x_collision m e)) = rect_left (rect e))"
  by (simp add: adjust_on_x_collision_def resolveAxisX_spec_def rect_defs Let_def)

theorem adjust_on_x_collision_snaps_witness:
  "is_collided_with scenario_B_ball scenario_B_paddle
   \<and> speed scenario_B_ball = \<lparr>vec_x = 2, vec_y = - 2\<rparr>
   \<and> vec_x (speed (adjust_on_x_collision scenario_B_ball scenario_B_paddle)) = - 2
   \<and> rect_right (rect (adjust_on_x_collision scenario_B_ball scenario_B_paddle))
       = rect_left (rect scenario_B_paddle)
   \<and> adjust_on_x_collision scenario_B_ball scenario_B_paddle
       = resolveAxisX_spec scenario_B_ball scenario_B_paddle
   \<and> is_collided_with right_side_ball scenario_B_paddle
   \<and> rect_left (rect (adjust_on_x_collision right_side_ball scenario_B_paddle))
       = rect_right (rect scenario_B_paddle)"
proof -
  have b: "is_collided_with scenario_B_ball scenario_B_paddle
      \<and> speed scenario_B_ball = \<lparr>vec_x = 2, vec_y = - 2\<rparr>
      \<and> rect_left (rect scenario_B_ball) \<le> rect_left (rect scenario_B_paddle)
      \<and> rect_left (rect scenario_B_paddle) < rect_right (rect scenario_B_ball)
      \<and> rect_right (rect scenario_B_ball) < rect_right (rect scenario_B_paddle)"
    by code_simp
  have r: "is_collided_with right_side_ball scenario_B_paddle
      \<and> \<not> (rect_left (rect scenario_B_paddle) < rect_right (rect right_side_ball)
            \<and> rect_right (rect right_side_ball) < rect_right (rect scenario_B_paddle))"
    by code_simp
  from adjust_on_x_collision_snaps [of scenario_B_paddle scenario_B_ball] b
  have one: "vec_x (speed (adjust_on_x_collision scenario_B_ball scenario_B_paddle)) = - 2
      \<and> rect_right (rect (adjust_on_x_collision scenario_B_ball scenario_B_paddle))
          = rect_left (rect scenario_B_paddle)
      \<and> adjust_on_x_collision scenario_B_ball scenario_B_paddle
          = resolveAxisX_spec scenario_B_ball scenario_B_paddle"
    by (simp (no_asm_use)) linarith
  from adjust_on_x_collision_snaps [of scenario_B_paddle right_side_ball] r
  have two: "rect_left (rect (adjust_on_x_collision right_side_ball scenario_B_paddle))
       = rect_right (rect scenario_B_paddle)"
    by blast
  from b r one two show ?thesis by blast
qed

text \<open>
  The claim as stated fails for a mover that overlaps the obstacle with both edges inside
  the obstacle's span: the specification's wording sends it to the obstacle's right side,
  the code to the left side.
\<close>

theorem resolveAxisX_counterexample:
  "is_collided_with inner_ball scenario_B_paddle
   \<and> rect_left (rect scenario_B_paddle) < rect_left (rect inner_ball)
   \<and> rect_left (rect inner_ball) < rect_right (rect scenario_B_paddle)
   \<and> rect_x (rect (adjust_on_x_collision inner_ball scenario_B_paddle)) = 335
   \<and> rect_right (rect (adjust_on_x_collision inner_ball scenario_B_paddle))
       = rect_left (rect scenario_B_paddle)
   \<and> rect_x (rect (resolveAxisX_spec inner_ball scenario_B_paddle)) = 415
   \<and> adjust_on_x_collision inner_ball scenario_B_paddle
       \<noteq> resolveAxisX_spec inner_ball scenario_B_paddle"
  by code_simp

section \<open>The anti-squeeze correction\<close>

text \<open>
  Claim C1, as amended. For every tick in which, after the X and Y passes of
  \<^verbatim>\<open>process_collisions\<close>, the ball's vertical span has crossed into the paddle's vertical
  span and the ball's horizontal span is outside the boundary (its right edge beyond the
  boundary's right edge or its left edge before the boundary's left edge), the tick puts
  the ball directly below the paddle: the ball's top edge on the paddle's bottom edge, its
  horizontal position, its size and its speed as the passes left them. The correction
  does not fire when the ball's horizontal span is inside the boundary, nor when the ball
  lies wholly below the paddle. (The paddle's own clamp, which follows, does not move the
  paddle's bottom edge. What the code does with a ball that is outside the boundary and
  wholly above the paddle is left open here.)
\<close>

theorem squeeze_correction:
  "(rect_top (rect (ball (y_pass (x_pass L)))) < rect_bottom (rect (platform L))
      \<and> rect_top (rect (platform L)) < rect_bottom (rect (ball (y_pass (x_pass L))))
      \<and> (rect_right (rect (ball (y_pass (x_pass L)))) > rect_right (edges L)
          \<or> rect_left (rect (ball (y_pass (x_pass L)))) < rect_left (edges L))
    \<longrightarrow> rect_top (rect (ball (process_collisions L)))
          = rect_bottom (rect (platform (process_collisions L)))
        \<and> rect_x (rect (ball (process_collisions L))) = rect_x (rect (ball (y_pass (x_pass L))))
        \<and> rect_w (rect (ball (process_collisions L))) = rect_w (rect (ball (y_pass (x_pass L))))
        \<and> rect_h (rect (ball (process_collisions L))) = rect_h (rect (ball (y_pass (x_pass L))))
        \<and> speed (ball (process_collisions L)) = speed (ball (y_pass (x_pass L))))
   \<and> (rect_right (rect (ball (y_pass (x_pass L)))) \<le> rect_right (edges L)
      \<and> rect_left (edges L) \<le> rect_left (rect (ball (y_pass (x_pass L))))
    \<longrightarrow> ball (process_collisions L) = ball (y_pass (x_pass L)))
   \<and> (rect_bottom (rect (platform L)) \<le> rect_top (rect (ball (y_pass (x_pass L))))
      \<and> rect_top (rect (platform L)) \<le> rect_bottom (rect (ball (y_pass (x_pass L))))
    \<longrightarrow> ball (process_collisions L) = ball (y_pass (x_pass L)))
   \<and> rect_bottom (rect (platform (process_collisions L))) = rect_bottom (rect (platform L))"
  by (simp add: process_collisions_def squeeze_def is_squeezing_on_y_def is_squeezing_on_x_def
      rect_defs)

theorem squeeze_correction_witness:
  "rect_top (rect (ball (y_pass (x_pass squeezed_level)))) < rect_bottom (rect (platform squeezed_level))
   \<and> rect_top (rect (platform squeezed_level)) < rect_bottom (rect (ball (y_pass (x_pass squeezed_level))))
   \<and> rect_left (rect (ball (y_pass (x_pass squeezed_level)))) < rect_left (edges squeezed_level)
   \<and> rect_top (rect (ball (process_collisions squeezed_level)))
       = rect_bottom (rect (platform (process_collisions squeezed_level)))
   \<and> speed (ball (process_collisions squeezed_level)) = speed (ball (y_pass (x_pass squeezed_level)))
   \<and> ball (process_collisions leftover_level) = ball (y_pass (x_pass leftover_level))
   \<and> ball (process_collisions (leftover_level\<lparr>ball := inner_ball\<lparr>rect := new_Rect (375, 400) (15, 15)\<rparr>\<rparr>))
       = ball (y_pass (x_pass (leftover_level\<lparr>ball := inner_ball\<lparr>rect := new_Rect (375, 400) (15, 15)\<rparr>\<rparr>)))"
proof -
  let ?B = "leftover_level\<lparr>ball := inner_ball\<lparr>rect := new_Rect (375, 400) (15, 15)\<rparr>\<rparr>"
  have sq: "rect_top (rect (ball (y_pass (x_pass squeezed_level)))) < rect_bottom (rect (platform squeezed_level))
      \<and> rect_top (rect (platform squeezed_level)) < rect_bottom (rect (ball (y_pass (x_pass squeezed_level))))
      \<and> rect_left (rect (ball (y_pass (x_pass squeezed_level)))) < rect_left (edges squeezed_level)"
    by code_simp
  have inside: "rect_right (rect (ball (y_pass (x_pass leftover_level)))) \<le> rect_right (edges leftover_level)
      \<and> rect_left (edges leftover_level) \<le> rect_left (rect (ball (y_pass (x_pass leftover_level))))"
    by code_simp
  have below: "rect_bottom (rect (platform ?B)) \<le> rect_top (rect (ball (y_pass (x_pass ?B))))
      \<and> rect_top (rect (platform ?B)) \<le> rect_bottom (rect (ball (y_pass (x_pass ?B))))"
    by code_simp
  from squeeze_correction [of squeezed_level] sq
  have one: "rect_top (rect (ball (process_collisions squeezed_level)))
       = rect_bottom (rect (platform (process_collisions squeezed_level)))
      \<and> speed (ball (process_collisions squeezed_level)) = speed (ball (y_pass (x_pass squeezed_level)))"
    by blast
  from squeeze_correction [of leftover_level] inside
  have two: "ball (process_collisions leftover_level) = ball (y_pass (x_pass leftover_level))"
    by blast
  from squeeze_correction [of ?B] below
  have three: "ball (process_collisions ?B) = ball (y_pass (x_pass ?B))"
    by blast
  from sq one two three show ?thesis by blast
qed

text \<open>
  The claim as stated fails: with the ball's vertical span inside the paddle's and the ball
  outside the boundary, the ball ends below the paddle, its top edge on the paddle's bottom
  edge, not above it (\<open>squeezed_level\<close>: the paddle spans 375 to 395, the ball ends at 395
  to 410).
\<close>

theorem squeeze_counterexample:
  "rect_top (rect (ball (y_pass (x_pass squeezed_level))))
     < rect_bottom (rect (platform (y_pass (x_pass squeezed_level))))
   \<and> rect_top (rect (platform (y_pass (x_pass squeezed_level))))
     < rect_bottom (rect (ball (y_pass (x_pass squeezed_level))))
   \<and> rect_left (rect (ball (y_pass (x_pass squeezed_level)))) < rect_left (edges squeezed_level)
   \<and> rect_top (rect (ball (process_collisions squeezed_level)))
     = rect_bottom (rect (platform (process_collisions squeezed_level)))
   \<and> rect_top (rect (platform (process_collisions squeezed_level)))
     < rect_bottom (rect (ball (process_collisions squeezed_level)))
   \<and> rect_top (rect (platform (process_collisions squeezed_level))) = 375
   \<and> rect_bottom (rect (ball (process_collisions squeezed_level))) = 410"
  by code_simp

section \<open>The magnitude of the ball's speed\<close>

text \<open>
  Claim C6, as amended. For every tick in which the input does not release the ball (the
  CTRL key is up or the ball is already released), no life is lost (the number of lives
  after the tick is the number before) and the cleanup removes no block (the list of
  blocks keeps its length), the absolute value of each component of the ball's speed is
  the same after the tick as before: the collisions with the paddle, the boundary and the
  blocks only negate components.
\<close>

theorem speed_magnitude_kept:
  assumes "\<not> (key_ctrl keys \<and> \<not> is_ball_released (state L))"
    and "lifes (state (update keys L)) = lifes (state L)"
    and "length (blocks (update keys L)) = length (blocks L)"
  shows "\<bar>vec_x (speed (ball (update keys L)))\<bar> = \<bar>vec_x (speed (ball L))\<bar>
     \<and> \<bar>vec_y (speed (ball (update keys L)))\<bar> = \<bar>vec_y (speed (ball L))\<bar>"
proof -
  let ?K = "process_key_presses keys L"
  let ?X = "x_pass ?K"
  let ?C = "process_collisions ?K"
  have "length (blocks (cleanup 0 ?C)) = length (blocks ?C)"
    using assms(3) by (simp add: update_def)
  then have "speed (ball (cleanup 0 ?C)) = speed (ball ?C)"
    by (rule cleanup_same_length_speed)
  then have u: "speed (ball (update keys L)) = speed (ball (y_pass ?X))"
    by (simp add: update_def collisions_speed)
  have "lifes (state (y_pass ?X)) = lifes (state ?X)"
    using assms(2) by (simp add: update_def collisions_lifes)
  from y_pass_speed_kept [OF this]
  have "vec_x (speed (ball (y_pass ?X))) = vec_x (speed (ball ?X))"
    and "\<bar>vec_y (speed (ball (y_pass ?X)))\<bar> = \<bar>vec_y (speed (ball ?X))\<bar>" by simp_all
  moreover have "\<bar>vec_x (speed (ball ?X))\<bar> = \<bar>vec_x (speed (ball ?K))\<bar>"
    and "vec_y (speed (ball ?X)) = vec_y (speed (ball ?K))" by simp_all
  moreover have "speed (ball ?K) = speed (ball L)" using assms(1) by (rule keys_speed)
  ultimately show ?thesis by (simp add: u)
qed

theorem speed_magnitude_kept_witness:
  "lifes (state (update (no_keys\<lparr>key_ctrl := True, key_a := True\<rparr>) squeezed_level))
     = lifes (state squeezed_level)
   \<and> length (blocks (update (no_keys\<lparr>key_ctrl := True, key_a := True\<rparr>) squeezed_level))
     = length (blocks squeezed_level)
   \<and> vec_x (speed (ball squeezed_level)) = - 2
   \<and> \<bar>vec_x (speed (ball (update (no_keys\<lparr>key_ctrl := True, key_a := True\<rparr>) squeezed_level)))\<bar> = 2
   \<and> \<bar>vec_y (speed (ball (update (no_keys\<lparr>key_ctrl := True, key_a := True\<rparr>) squeezed_level)))\<bar> = 2"
proof -
  have h1: "\<not> (key_ctrl (no_keys\<lparr>key_ctrl := True, key_a := True\<rparr>)
             \<and> \<not> is_ball_released (state squeezed_level))"
    by (simp add: squeezed_level_def)
  have h2: "lifes (state (update (no_keys\<lparr>key_ctrl := True, key_a := True\<rparr>) squeezed_level))
     = lifes (state squeezed_level)"
    by code_simp
  have h3: "length (blocks (update (no_keys\<lparr>key_ctrl := True, key_a := True\<rparr>) squeezed_level))
     = length (blocks squeezed_level)"
    by code_simp
  have v: "vec_x (speed (ball squeezed_level)) = - 2 \<and> vec_y (speed (ball squeezed_level)) = 2"
    by (simp add: squeezed_level_def)
  from speed_magnitude_kept [OF h1 h2 h3] h2 h3 v show ?thesis by simp
qed

text \<open>
  The claim as stated fails in the three ways the amendment excludes, each in a tick that
  flags no block: a life loss sets the speed to zero (\<open>wall_level\<close>), a release sets it
  from zero to the launch speed (\<open>waiting_level\<close>), and the cleanup of a block flagged in
  an earlier tick multiplies it by 1.02 (\<open>leftover_level\<close>).
\<close>

theorem speed_magnitude_counterexample:
  "blocks (update no_keys wall_level) = blocks wall_level
   \<and> is_destroyed (heap (update no_keys wall_level) 0) = is_destroyed (heap wall_level 0)
   \<and> is_destroyed (heap (update no_keys wall_level) 1) = is_destroyed (heap wall_level 1)
   \<and> \<bar>vec_y (speed (ball wall_level))\<bar> = 2
   \<and> \<bar>vec_y (speed (ball (update no_keys wall_level)))\<bar> = 0
   \<and> blocks (update (no_keys\<lparr>key_ctrl := True\<rparr>) waiting_level) = blocks waiting_level
   \<and> is_destroyed (heap (update (no_keys\<lparr>key_ctrl := True\<rparr>) waiting_level) 0)
       = is_destroyed (heap waiting_level 0)
   \<and> is_destroyed (heap (update (no_keys\<lparr>key_ctrl := True\<rparr>) waiting_level) 1)
       = is_destroyed (heap waiting_level 1)
   \<and> \<bar>vec_x (speed (ball waiting_level))\<bar> = 0
   \<and> \<bar>vec_x (speed (ball (update (no_keys\<lparr>key_ctrl := True\<rparr>) waiting_level)))\<bar> = 2
   \<and> is_destroyed (heap (update no_keys leftover_level) 0) = is_destroyed (heap leftover_level 0)
   \<and> is_destroyed (heap (update no_keys leftover_level) 1) = is_destroyed (heap leftover_level 1)
   \<and> \<bar>vec_x (speed (ball leftover_level))\<bar> = 2
   \<and> \<bar>vec_x (speed (ball (update no_keys leftover_level)))\<bar> = 51 / 25"
  by code_simp

section \<open>The loss of a life\<close>

text \<open>
  Claim C4, as amended. For every tick in which, on the Y pass, the displaced ball does not
  collide with the paddle and its bottom edge is beyond the boundary's bottom edge: the
  tick decrements the lives by 1, sets \<open>is_ball_released\<close> to false and the ball's speed to
  \<open>(0, 0)\<close>, and if the lives were 1 they are 0 afterwards and \<open>is_game_over\<close> is true. The
  Y pass puts the ball's bottom edge on the paddle's top edge and centres it horizontally on
  the paddle as the paddle stands during the passes. At the end of the tick the ball is
  still centred on that position; its bottom edge is still on the paddle's top edge unless
  the re-centred ball sticks out of the boundary (then the anti-squeeze correction moves
  it); and it is centred on the paddle itself provided the paddle was inside the boundary,
  so that the paddle's clamp, which comes after the ball's reset, did not move the paddle.
\<close>

theorem life_loss_tick:
  assumes "\<not> is_collided_with (ball (y_move (x_pass (process_key_presses keys L))))
                             (platform (y_move (x_pass (process_key_presses keys L))))"
    and "rect_bottom (rect (ball (y_move (x_pass (process_key_presses keys L)))))
           > rect_bottom (edges (y_move (x_pass (process_key_presses keys L))))"
  shows "lifes (state (update keys L)) = lifes (state L) - 1
     \<and> \<not> is_ball_released (state (update keys L))
     \<and> speed (ball (update keys L)) = \<lparr>vec_x = 0, vec_y = 0\<rparr>
     \<and> (lifes (state L) = 1 \<longrightarrow>
          lifes (state (update keys L)) = 0 \<and> is_game_over (state (update keys L)))
     \<and> rect_bottom (rect (ball (y_pass (x_pass (process_key_presses keys L)))))
          = rect_top (rect (platform (y_pass (x_pass (process_key_presses keys L)))))
     \<and> rect_centerx (rect (ball (y_pass (x_pass (process_key_presses keys L)))))
          = rect_centerx (rect (platform (y_pass (x_pass (process_key_presses keys L)))))
     \<and> rect_centerx (rect (ball (update keys L)))
          = rect_centerx (rect (platform (process_key_presses keys L)))
     \<and> (\<not> is_squeezing_on_x (y_pass (x_pass (process_key_presses keys L))) \<longrightarrow>
          rect_bottom (rect (ball (update keys L))) = rect_top (rect (platform (update keys L))))
     \<and> (rect_left (edges L) \<le> rect_left (rect (platform (process_key_presses keys L)))
        \<and> rect_right (rect (platform (process_key_presses keys L))) \<le> rect_right (edges L) \<longrightarrow>
          rect_centerx (rect (ball (update keys L))) = rect_centerx (rect (platform (update keys L))))"
proof -
  let ?K = "process_key_presses keys L"
  let ?X = "x_pass ?K"
  let ?M = "y_move ?X"
  let ?Y = "y_pass ?X"
  let ?S = "squeeze ?Y"
  let ?C = "platform_clamp ?S"
  let ?U = "update keys L"
  have Y: "?Y = lose_life ?M" using assms by (rule y_pass_life_lost)
  have M: "platform ?M = platform ?K" "lifes (state ?M) = lifes (state L)" "edges ?M = edges L"
    by (simp_all add: y_move_def)
  have U: "?U = finish (cleanup 0 ?C)" by (simp add: update_def process_collisions_def)
  have lifes: "lifes (state ?U) = lifes (state L) - 1"
    by (simp add: U Y lose_life_fields M)
  have rel: "\<not> is_ball_released (state ?U)"
    by (simp add: U Y lose_life_fields)
  have "speed (ball ?C) = \<lparr>vec_x = 0, vec_y = 0\<rparr>" by (simp add: Y lose_life_fields)
  then have "speed (ball (cleanup 0 ?C)) = \<lparr>vec_x = 0, vec_y = 0\<rparr>" by (rule cleanup_zero_speed)
  then have spd: "speed (ball ?U) = \<lparr>vec_x = 0, vec_y = 0\<rparr>" by (simp add: U)
  have over: "lifes (state L) = 1 \<longrightarrow> lifes (state ?U) = 0 \<and> is_game_over (state ?U)"
  proof
    assume one: "lifes (state L) = 1"
    have "lifes (state (cleanup 0 ?C)) = 0" using one by (simp add: Y lose_life_fields M)
    then have "is_game_over (state ?U)" by (simp add: U finish_def)
    with lifes one show "lifes (state ?U) = 0 \<and> is_game_over (state ?U)" by simp
  qed
  have onY: "rect_bottom (rect (ball ?Y)) = rect_top (rect (platform ?Y))"
    and cenY: "rect_centerx (rect (ball ?Y)) = rect_centerx (rect (platform ?Y))"
    by (simp_all add: Y lose_life_fields)
  have pY: "platform ?Y = platform ?K" by simp
  have cenU: "rect_centerx (rect (ball ?U)) = rect_centerx (rect (platform ?K))"
    using cenY by (simp add: update_ball_rect pY)
  have bot: "\<not> is_squeezing_on_x ?Y \<longrightarrow> rect_bottom (rect (ball ?U)) = rect_top (rect (platform ?U))"
  proof
    assume "\<not> is_squeezing_on_x ?Y"
    then have "squeeze ?Y = ?Y" by (rule squeeze_idle)
    with onY show "rect_bottom (rect (ball ?U)) = rect_top (rect (platform ?U))"
      by (simp add: update_ball_rect update_platform)
  qed
  have cen: "rect_left (edges L) \<le> rect_left (rect (platform ?K))
        \<and> rect_right (rect (platform ?K)) \<le> rect_right (edges L) \<longrightarrow>
          rect_centerx (rect (ball ?U)) = rect_centerx (rect (platform ?U))"
  proof
    assume "rect_left (edges L) \<le> rect_left (rect (platform ?K))
        \<and> rect_right (rect (platform ?K)) \<le> rect_right (edges L)"
    then have "platform_clamp ?S = ?S" by (intro clamp_idle) simp_all
    then have "platform ?U = platform ?K" by (simp add: update_platform)
    with cenU show "rect_centerx (rect (ball ?U)) = rect_centerx (rect (platform ?U))" by simp
  qed
  from lifes rel spd over onY cenY cenU bot cen show ?thesis by blast
qed

theorem life_loss_tick_witness:
  "lifes (state wall_level) = 1
   \<and> lifes (state (update no_keys wall_level)) = 0
   \<and> is_game_over (state (update no_keys wall_level))
   \<and> \<not> is_ball_released (state (update no_keys wall_level))
   \<and> speed (ball (update no_keys wall_level)) = \<lparr>vec_x = 0, vec_y = 0\<rparr>
   \<and> rect_bottom (rect (ball (update no_keys wall_level)))
       = rect_top (rect (platform (update no_keys wall_level)))
   \<and> rect_centerx (rect (ball (update no_keys wall_level)))
       = rect_centerx (rect (platform (update no_keys wall_level)))"
proof -
  have h1: "\<not> is_collided_with (ball (y_move (x_pass (process_key_presses no_keys wall_level))))
                             (platform (y_move (x_pass (process_key_presses no_keys wall_level))))"
    by code_simp
  have h2: "rect_bottom (rect (ball (y_move (x_pass (process_key_presses no_keys wall_level)))))
           > rect_bottom (edges (y_move (x_pass (process_key_presses no_keys wall_level))))"
    by code_simp
  have one: "lifes (state wall_level) = 1" by (simp add: wall_level_def)
  have calm: "\<not> is_squeezing_on_x (y_pass (x_pass (process_key_presses no_keys wall_level)))"
    by code_simp
  have inside: "rect_left (edges wall_level) \<le> rect_left (rect (platform (process_key_presses no_keys wall_level)))
        \<and> rect_right (rect (platform (process_key_presses no_keys wall_level))) \<le> rect_right (edges wall_level)"
    by code_simp
  from life_loss_tick [OF h1 h2] one calm inside show ?thesis by simp
qed

text \<open>
  The claim as stated fails at the end of a tick that loses the life while the paddle is
  pushed against the right wall: the ball is centred on the paddle where it stood before
  its clamp (centre 672), and the clamp then moves the paddle back (centre 667).
\<close>

theorem life_loss_counterexample:
  "\<not> is_collided_with (ball (y_move (x_pass (process_key_presses (no_keys\<lparr>key_d := True\<rparr>) wall_level))))
                      (platform (y_move (x_pass (process_key_presses (no_keys\<lparr>key_d := True\<rparr>) wall_level))))
   \<and> rect_bottom (rect (ball (y_move (x_pass (process_key_presses (no_keys\<lparr>key_d := True\<rparr>) wall_level)))))
       > rect_bottom (edges (y_move (x_pass (process_key_presses (no_keys\<lparr>key_d := True\<rparr>) wall_level))))
   \<and> lifes (state (update (no_keys\<lparr>key_d := True\<rparr>) wall_level)) = 0
   \<and> rect_centerx (rect (ball (update (no_keys\<lparr>key_d := True\<rparr>) wall_level))) = 672
   \<and> rect_centerx (rect (platform (update (no_keys\<lparr>key_d := True\<rparr>) wall_level))) = 667"
  by code_simp

section \<open>The outcomes of the X pass\<close>

text \<open>
  Claim C3, as amended. In the X pass exactly one of four outcomes applies, in this
  order. If the displaced ball collides with the paddle, it is resolved against the
  paddle and nothing else happens: no boundary clamp, even if the ball ends outside the
  boundary, and no block is flagged. Otherwise, if its right edge is beyond the boundary's
  right edge, it is put on that edge and its X speed negated; otherwise the same on the
  left; in neither case is a block flagged. Otherwise the loop over the blocks runs, and it
  runs to the end of the list: every block that collides with the ball, as the earlier
  resolutions of the same pass have placed it, is resolved against and flagged destroyed,
  so one pass can destroy several blocks.
\<close>

theorem x_pass_outcomes:
  "(is_collided_with (ball (x_move L)) (platform L) \<longrightarrow>
      heap (x_pass L) = heap L
      \<and> ball (x_pass L) = adjust_on_x_collision (ball (x_move L)) (platform L))
   \<and> (\<not> is_collided_with (ball (x_move L)) (platform L)
       \<and> rect_right (rect (ball (x_move L))) > rect_right (edges L) \<longrightarrow>
      heap (x_pass L) = heap L
      \<and> rect_right (rect (ball (x_pass L))) = rect_right (edges L)
      \<and> vec_x (speed (ball (x_pass L))) = - vec_x (speed (ball L)))
   \<and> (\<not> is_collided_with (ball (x_move L)) (platform L)
       \<and> \<not> rect_right (rect (ball (x_move L))) > rect_right (edges L)
       \<and> rect_left (rect (ball (x_move L))) < rect_left (edges L) \<longrightarrow>
      heap (x_pass L) = heap L
      \<and> rect_left (rect (ball (x_pass L))) = rect_left (edges L)
      \<and> vec_x (speed (ball (x_pass L))) = - vec_x (speed (ball L)))
   \<and> (\<not> is_collided_with (ball (x_move L)) (platform L)
       \<and> \<not> rect_right (rect (ball (x_move L))) > rect_right (edges L)
       \<and> \<not> rect_left (rect (ball (x_move L))) < rect_left (edges L) \<longrightarrow>
      x_pass L = blocks_x (blocks L) (x_move L)
      \<and> (\<forall>r. is_destroyed (heap (x_pass L) r) \<longleftrightarrow>
            is_destroyed (heap L r)
            \<or> (\<exists>k<length (blocks L). blocks L ! k = r
                  \<and> is_collided_with (ball (blocks_x (take k (blocks L)) (x_move L))) (heap L r))))"
proof -
  have a: "is_collided_with (ball (x_move L)) (platform L) \<longrightarrow>
      heap (x_pass L) = heap L
      \<and> ball (x_pass L) = adjust_on_x_collision (ball (x_move L)) (platform L)"
    by (simp add: x_pass_def x_resolve_def)
  have b: "\<not> is_collided_with (ball (x_move L)) (platform L)
       \<and> rect_right (rect (ball (x_move L))) > rect_right (edges L) \<longrightarrow>
      heap (x_pass L) = heap L
      \<and> rect_right (rect (ball (x_pass L))) = rect_right (edges L)
      \<and> vec_x (speed (ball (x_pass L))) = - vec_x (speed (ball L))"
    by (simp add: x_pass_def x_resolve_def flip_x_def rect_defs)
  have c: "\<not> is_collided_with (ball (x_move L)) (platform L)
       \<and> \<not> rect_right (rect (ball (x_move L))) > rect_right (edges L)
       \<and> rect_left (rect (ball (x_move L))) < rect_left (edges L) \<longrightarrow>
      heap (x_pass L) = heap L
      \<and> rect_left (rect (ball (x_pass L))) = rect_left (edges L)
      \<and> vec_x (speed (ball (x_pass L))) = - vec_x (speed (ball L))"
    by (simp add: x_pass_def x_resolve_def flip_x_def rect_defs)
  have d: "\<not> is_collided_with (ball (x_move L)) (platform L)
       \<and> \<not> rect_right (rect (ball (x_move L))) > rect_right (edges L)
       \<and> \<not> rect_left (rect (ball (x_move L))) < rect_left (edges L) \<longrightarrow>
      x_pass L = blocks_x (blocks L) (x_move L)
      \<and> (\<forall>r. is_destroyed (heap (x_pass L) r) \<longleftrightarrow>
            is_destroyed (heap L r)
            \<or> (\<exists>k<length (blocks L). blocks L ! k = r
                  \<and> is_collided_with (ball (blocks_x (take k (blocks L)) (x_move L))) (heap L r)))"
  proof
    assume h: "\<not> is_collided_with (ball (x_move L)) (platform L)
       \<and> \<not> rect_right (rect (ball (x_move L))) > rect_right (edges L)
       \<and> \<not> rect_left (rect (ball (x_move L))) < rect_left (edges L)"
    then have eq: "x_pass L = blocks_x (blocks L) (x_move L)"
      by (simp add: x_pass_def x_resolve_def)
    have "\<forall>r. is_destroyed (heap (blocks_x (blocks L) (x_move L)) r) \<longleftrightarrow>
            is_destroyed (heap L r)
            \<or> (\<exists>k<length (blocks L). blocks L ! k = r
                  \<and> is_collided_with (ball (blocks_x (take k (blocks L)) (x_move L))) (heap L r))"
      using blocks_x_flagged_iff [of "blocks L" "x_move L"] by simp
    with eq show "x_pass L = blocks_x (blocks L) (x_move L)
      \<and> (\<forall>r. is_destroyed (heap (x_pass L) r) \<longleftrightarrow>
            is_destroyed (heap L r)
            \<or> (\<exists>k<length (blocks L). blocks L ! k = r
                  \<and> is_collided_with (ball (blocks_x (take k (blocks L)) (x_move L))) (heap L r)))"
      by simp
  qed
  from a b c d show ?thesis by blast
qed

theorem x_pass_outcomes_witness:
  "is_collided_with (ball (x_move squeezed_level)) (platform squeezed_level)
   \<and> rect_left (rect (ball (x_pass squeezed_level))) < rect_left (edges squeezed_level)
   \<and> heap (x_pass squeezed_level) = heap squeezed_level
   \<and> ball (x_pass squeezed_level)
       = adjust_on_x_collision (ball (x_move squeezed_level)) (platform squeezed_level)
   \<and> rect_right (rect (ball (x_pass (leftover_level\<lparr>ball := right_side_ball\<lparr>rect := new_Rect (684, 300) (15, 15), speed := \<lparr>vec_x = 2, vec_y = - 2\<rparr>\<rparr>\<rparr>))))
       = rect_right (edges leftover_level)
   \<and> rect_left (rect (ball (x_pass (leftover_level\<lparr>ball := right_side_ball\<lparr>rect := new_Rect (1, 300) (15, 15)\<rparr>\<rparr>))))
       = rect_left (edges leftover_level)
   \<and> x_pass leftover_level = blocks_x (blocks leftover_level) (x_move leftover_level)"
proof -
  let ?R = "leftover_level\<lparr>ball := right_side_ball\<lparr>rect := new_Rect (684, 300) (15, 15), speed := \<lparr>vec_x = 2, vec_y = - 2\<rparr>\<rparr>\<rparr>"
  let ?L = "leftover_level\<lparr>ball := right_side_ball\<lparr>rect := new_Rect (1, 300) (15, 15)\<rparr>\<rparr>"
  have hit: "is_collided_with (ball (x_move squeezed_level)) (platform squeezed_level)"
    by code_simp
  have out: "rect_left (rect (ball (x_pass squeezed_level))) < rect_left (edges squeezed_level)"
    by code_simp
  have right: "\<not> is_collided_with (ball (x_move ?R)) (platform ?R)
       \<and> rect_right (rect (ball (x_move ?R))) > rect_right (edges ?R)"
    by code_simp
  have left: "\<not> is_collided_with (ball (x_move ?L)) (platform ?L)
       \<and> \<not> rect_right (rect (ball (x_move ?L))) > rect_right (edges ?L)
       \<and> rect_left (rect (ball (x_move ?L))) < rect_left (edges ?L)"
    by code_simp
  have free: "\<not> is_collided_with (ball (x_move leftover_level)) (platform leftover_level)
       \<and> \<not> rect_right (rect (ball (x_move leftover_level))) > rect_right (edges leftover_level)
       \<and> \<not> rect_left (rect (ball (x_move leftover_level))) < rect_left (edges leftover_level)"
    by code_simp
  have same: "edges ?R = edges leftover_level" "edges ?L = edges leftover_level" by simp_all
  from x_pass_outcomes [of squeezed_level] hit
  have one: "heap (x_pass squeezed_level) = heap squeezed_level
      \<and> ball (x_pass squeezed_level)
          = adjust_on_x_collision (ball (x_move squeezed_level)) (platform squeezed_level)"
    by blast
  from x_pass_outcomes [of ?R] right
  have two: "rect_right (rect (ball (x_pass ?R))) = rect_right (edges ?R)" by blast
  from x_pass_outcomes [of ?L] left
  have three: "rect_left (rect (ball (x_pass ?L))) = rect_left (edges ?L)" by blast
  from x_pass_outcomes [of leftover_level] free
  have four: "x_pass leftover_level = blocks_x (blocks leftover_level) (x_move leftover_level)"
    by blast
  from hit out one two [unfolded same] three [unfolded same] four show ?thesis by blast
qed

text \<open>
  The claim as stated fails in its last part: the loop has no \<^verbatim>\<open>break\<close>, and the X pass of
  the first tick of \<^verbatim>\<open>Game(Edges(400, 500), 10, 11)\<close> flags the two blocks 95 and 96.
\<close>

theorem x_pass_counterexample:
  "Game_init \<lparr>width = 400, height = 500\<rparr> 10 11
     = Inr \<lparr>game_edges = \<lparr>width = 400, height = 500\<rparr>,
            game_images = \<lparr>platform_image = (65, 20), ball_image = (15, 15), block_image = (26, 20)\<rparr>,
            level_maker = narrow_maker\<rparr>
   \<and> get_level narrow_maker = Some (fresh_level narrow_maker)
   \<and> \<not> is_destroyed (heap (fresh_level narrow_maker) 95)
   \<and> \<not> is_destroyed (heap (fresh_level narrow_maker) 96)
   \<and> is_destroyed (heap (x_pass (process_key_presses no_keys (fresh_level narrow_maker))) 95)
   \<and> is_destroyed (heap (x_pass (process_key_presses no_keys (fresh_level narrow_maker))) 96)"
proof -
  have "get_level narrow_maker = Some (fresh_level narrow_maker)"
    by (rule get_level_closed) (simp add: narrow_maker_def)
  with narrow_game narrow_x_pass show ?thesis by (simp add: Let_def)
qed

section \<open>The cleanup loop skips a block\<close>

text \<open>
  Claim C2. The claim asks that every block flagged in a tick is removed by the end of
  that tick. The cleanup loop of \<^verbatim>\<open>Level.update\<close> removes blocks from the list it is
  iterating over, so the element after a removed one is never looked at. In the first tick
  of \<^verbatim>\<open>Game(Edges(400, 500), 10, 11)\<close> the blocks 95 and 96, neighbours in the list, are
  both flagged; the cleanup removes 95 and scores 100, and block 96 stays in the list,
  flagged, until the next tick removes it and scores the second 100.
\<close>

theorem cleanup_skips_flagged_block:
  "Game_init \<lparr>width = 400, height = 500\<rparr> 10 11
     = Inr \<lparr>game_edges = \<lparr>width = 400, height = 500\<rparr>,
            game_images = \<lparr>platform_image = (65, 20), ball_image = (15, 15), block_image = (26, 20)\<rparr>,
            level_maker = narrow_maker\<rparr>
   \<and> get_level narrow_maker = Some (fresh_level narrow_maker)
   \<and> \<not> is_destroyed (heap (fresh_level narrow_maker) 96)
   \<and> is_destroyed (heap (update no_keys (fresh_level narrow_maker)) 95)
   \<and> is_destroyed (heap (update no_keys (fresh_level narrow_maker)) 96)
   \<and> 95 \<notin> set (blocks (update no_keys (fresh_level narrow_maker)))
   \<and> 96 \<in> set (blocks (update no_keys (fresh_level narrow_maker)))
   \<and> score (state (update no_keys (fresh_level narrow_maker))) = 100
   \<and> 96 \<notin> set (blocks (update no_keys (update no_keys (fresh_level narrow_maker))))
   \<and> score (state (update no_keys (update no_keys (fresh_level narrow_maker)))) = 200"
proof -
  let ?U = "update no_keys (fresh_level narrow_maker)"
  let ?V = "update no_keys ?U"
  from narrow_two_ticks
  have f: "is_destroyed (heap ?U 95)" "is_destroyed (heap ?U 96)"
    "score (state ?U) = 100" "score (state ?V) = 200"
    and fU: "filter (\<lambda>r. r = 95 \<or> r = 96) (blocks ?U) = [96]"
    and fV: "filter (\<lambda>r. r = 95 \<or> r = 96) (blocks ?V) = []"
    by (simp_all add: Let_def)
  have "96 \<in> set (filter (\<lambda>r. r = 95 \<or> r = 96) (blocks ?U))" by (simp only: fU) simp
  then have inU: "96 \<in> set (blocks ?U)" by simp
  have outU: "95 \<notin> set (blocks ?U)"
  proof
    assume "95 \<in> set (blocks ?U)"
    then have "95 \<in> set (filter (\<lambda>r. r = 95 \<or> r = 96) (blocks ?U))" by simp
    then show False by (simp only: fU) simp
  qed
  have outV: "96 \<notin> set (blocks ?V)"
  proof
    assume "96 \<in> set (blocks ?V)"
    then have "96 \<in> set (filter (\<lambda>r. r = 95 \<or> r = 96) (blocks ?V))" by simp
    then show False by (simp only: fV) simp
  qed
  have g: "get_level narrow_maker = Some (fresh_level narrow_maker)"
    by (rule get_level_closed) (simp add: narrow_maker_def)
  have before: "\<not> is_destroyed (heap (fresh_level narrow_maker) 96)"
    using narrow_x_pass by (simp add: Let_def)
  from narrow_game g before f inU outU outV show ?thesis by blast
qed

end
